theory Spec2Isabelle
  imports Complex_Main
begin

section \<open>Memory decision pipeline: scorer, deduper, decider service, storage\<close>

text \<open>
  A shallow embedding of the Python sources \<^verbatim>\<open>scorer.py\<close>, \<^verbatim>\<open>deduper.py\<close>,
  \<^verbatim>\<open>decider_service.py\<close>, \<^verbatim>\<open>storage.py\<close> and the approve endpoint of
  \<^verbatim>\<open>main.py\<close>.

  Conventions of the embedding.
  \<^item> Python floats are modelled as \<^typ>\<open>real\<close>: arithmetic and comparisons are exact. A
    score that the model computes can therefore differ from the double that the code
    computes where the weighted sum lies at a tie of \<^verbatim>\<open>round(x, 3)\<close> (weights 0.4, 0.3, 0.3 and
    relevance 0, specificity 1, confidence 0.665 give 0.5 here and 0.499 there). Nothing
    below is stated about the value of a computed score, except at example inputs where
    both agree.
  \<^item> Text is ASCII: \<^verbatim>\<open>str.lower\<close> maps \<^verbatim>\<open>A-Z\<close> to \<^verbatim>\<open>a-z\<close>, \<^verbatim>\<open>str.split()\<close>
    splits on the ASCII whitespace characters.
  \<^item> Time stamps (\<^verbatim>\<open>datetime.now\<close>) and log output are left out.
  \<^item> A leading underscore of a Python name is dropped; a record field carries a prefix
    where two classes share a field name.
\<close>

subsection \<open>Data model (models.py)\<close>

datatype MemoryType = PREFERENCE | GOAL | COMMITMENT | SKILL | FEEDBACK

fun MemoryType_value :: "MemoryType \<Rightarrow> string" where
  "MemoryType_value PREFERENCE = ''preference''"
| "MemoryType_value GOAL = ''goal''"
| "MemoryType_value COMMITMENT = ''commitment''"
| "MemoryType_value SKILL = ''skill''"
| "MemoryType_value FEEDBACK = ''feedback''"

record ConversationTurn =
  speaker :: string
  turn_text :: string

record CandidateMemory =
  c_id :: "string option"
  memory_type :: MemoryType
  content :: string
  confidence :: real
  relevance :: real
  specificity :: real
  salience_score :: real
  source_turn :: ConversationTurn
  extraction_evidence :: string

text \<open>
  The reason of a decision is a Python f-string. It is kept as the list of its parts, a
  literal text or a formatted number, so that no model of float printing is needed:
  \<open>Fixed3 x\<close> stands for \<^verbatim>\<open>{x:.3f}\<close> and \<open>Repr x\<close> for \<^verbatim>\<open>{x}\<close>.
\<close>

datatype piece = Lit string | Fixed3 real | Repr real

type_synonym fstring = "piece list"



record MemoryDecision =
  action :: string
  reason :: fstring
  merged_with :: "string option"
  admin_notes :: "string option"

text \<open>The vector of \<^verbatim>\<open>_generate_embedding\<close> is a function of the text alone (a random
  vector seeded by a hash of the text); it is kept as the text it was generated from.\<close>

datatype embedding_vector = Seeded_by string

record StoredMemory =
  s_id :: "string option"
  s_candidate :: CandidateMemory
  s_decision :: MemoryDecision
  final_content :: string
  embedding :: "embedding_vector option"

record BufferedMemory =
  b_id :: "string option"
  b_candidate :: CandidateMemory
  buffer_reason :: fstring
  buffer_score :: real

record ExtractionResponse =
  resp_candidates :: "CandidateMemory list"
  resp_decisions :: "MemoryDecision list"
  resp_stored_count :: nat
  resp_buffered_count :: nat
  resp_rejected_count :: nat

record AdminReviewRequest =
  r_memory_id :: string
  r_action :: string
  r_notes :: "string option"
  r_modified_content :: "string option"

subsection \<open>Configuration (config.py)\<close>

record Config =
  RELEVANCE_WEIGHT :: real
  SPECIFICITY_WEIGHT :: real
  CONFIDENCE_WEIGHT :: real
  THRESHOLDS :: "(string \<times> real) list"
  SIMILARITY_THRESHOLD :: real
  BUFFER_THRESHOLD :: real

text \<open>The values \<^verbatim>\<open>config.py\<close> takes when the environment sets none.\<close>

definition default_Config :: Config where
  "default_Config =
     \<lparr>RELEVANCE_WEIGHT = 0.4, SPECIFICITY_WEIGHT = 0.3, CONFIDENCE_WEIGHT = 0.3,
      THRESHOLDS = [(''preference'', 0.5), (''goal'', 0.6), (''commitment'', 0.7),
                    (''skill'', 0.6), (''feedback'', 0.5)],
      SIMILARITY_THRESHOLD = 0.85, BUFFER_THRESHOLD = 0.5\<rparr>"

subsection \<open>Scorer (scorer.py)\<close>

text \<open>Python's \<^verbatim>\<open>round(x, ndigits)\<close>: to the nearest multiple of \<open>10 ^ -ndigits\<close>, a tie
  going to the even one.\<close>

definition round_half_even :: "real \<Rightarrow> int" where
  "round_half_even y =
     (let f = \<lfloor>y\<rfloor>; d = y - of_int f
      in if d < 1 / 2 then f else if d > 1 / 2 then f + 1 else if even f then f else f + 1)"

definition py_round :: "real \<Rightarrow> nat \<Rightarrow> real" where
  "py_round x ndigits = of_int (round_half_even (x * 10 ^ ndigits)) / 10 ^ ndigits"

definition weighted_sum :: "Config \<Rightarrow> CandidateMemory \<Rightarrow> real" where
  "weighted_sum cfg candidate =
     RELEVANCE_WEIGHT cfg * relevance candidate +
     SPECIFICITY_WEIGHT cfg * specificity candidate +
     CONFIDENCE_WEIGHT cfg * confidence candidate"

definition calculate_salience_score :: "Config \<Rightarrow> CandidateMemory \<Rightarrow> real" where
  "calculate_salience_score cfg candidate = py_round (weighted_sum cfg candidate) 3"

text \<open>\<^verbatim>\<open>score_memories\<close> writes the score into each candidate and sorts the pairs by score,
  highest first; Python's sort is stable, as \<^const>\<open>sort_key\<close> is.\<close>

definition score_memories :: "Config \<Rightarrow> CandidateMemory list \<Rightarrow> (CandidateMemory \<times> real) list" where
  "score_memories cfg cs =
     sort_key (\<lambda>x. - snd x)
       (map (\<lambda>candidate. let score = calculate_salience_score cfg candidate
                          in (candidate\<lparr>salience_score := score\<rparr>, score)) cs)"

text \<open>\<^verbatim>\<open>self.thresholds.get(memory_type, 0.7)\<close>\<close>

definition type_threshold :: "Config \<Rightarrow> CandidateMemory \<Rightarrow> real" where
  "type_threshold cfg candidate =
     (case map_of (THRESHOLDS cfg) (MemoryType_value (memory_type candidate)) of
        Some t \<Rightarrow> t
      | None \<Rightarrow> 0.7)"

definition evaluate_candidate :: "Config \<Rightarrow> CandidateMemory \<Rightarrow> real \<Rightarrow> MemoryDecision" where
  "evaluate_candidate cfg candidate score =
     (let mt = MemoryType_value (memory_type candidate);
          threshold = type_threshold cfg candidate
      in if score \<ge> threshold then
           \<lparr>action = ''keep'',
            reason = [Lit ''Score '', Fixed3 score, Lit '' meets '', Lit mt, Lit '' threshold '',
                      Repr threshold],
            merged_with = None, admin_notes = None\<rparr>
         else if score \<ge> BUFFER_THRESHOLD cfg then
           \<lparr>action = ''buffer'',
            reason = [Lit ''Score '', Fixed3 score, Lit '' below '', Lit mt, Lit '' threshold '',
                      Repr threshold, Lit '' but above buffer threshold '',
                      Repr (BUFFER_THRESHOLD cfg)],
            merged_with = None, admin_notes = None\<rparr>
         else
           \<lparr>action = ''reject'',
            reason = [Lit ''Score '', Fixed3 score, Lit '' below buffer threshold '',
                      Repr (BUFFER_THRESHOLD cfg)],
            merged_with = None, admin_notes = None\<rparr>)"

definition make_decisions :: "Config \<Rightarrow> (CandidateMemory \<times> real) list \<Rightarrow> MemoryDecision list" where
  "make_decisions cfg scored_candidates =
     map (\<lambda>(candidate, score). evaluate_candidate cfg candidate score) scored_candidates"

subsection \<open>Text similarity (deduper.py, \<^verbatim>\<open>_calculate_text_similarity\<close>)\<close>

definition isspace :: "char \<Rightarrow> bool" where
  "isspace c = (let n = (of_char c :: nat) in (9 \<le> n \<and> n \<le> 13) \<or> (28 \<le> n \<and> n \<le> 32))"

definition lower_char :: "char \<Rightarrow> char" where
  "lower_char c = (let n = (of_char c :: nat) in if 65 \<le> n \<and> n \<le> 90 then char_of (n + 32) else c)"

definition lower :: "string \<Rightarrow> string" where
  "lower s = map lower_char s"

text \<open>\<^verbatim>\<open>str.split()\<close>: the maximal runs of non-whitespace characters, in order; the first
  argument of \<open>split_from\<close> is the word read so far.\<close>

fun split_from :: "string \<Rightarrow> string \<Rightarrow> string list" where
  "split_from w [] = (if w = [] then [] else [w])"
| "split_from w (c # cs) =
     (if isspace c then (if w = [] then split_from [] cs else w # split_from [] cs)
      else split_from (w @ [c]) cs)"

definition split :: "string \<Rightarrow> string list" where
  "split s = split_from [] s"

definition calculate_text_similarity :: "string \<Rightarrow> string \<Rightarrow> real" where
  "calculate_text_similarity text1 text2 =
     (let words1 = set (split (lower text1));
          words2 = set (split (lower text2))
      in if words1 = {} \<or> words2 = {} then 0
         else let intersection = card (words1 \<inter> words2);
                  union = card (words1 \<union> words2)
              in if union > 0 then real intersection / real union else 0)"

subsection \<open>Deduper (deduper.py)\<close>

text \<open>An exception of the Python run time, and one raised by the database client with its
  message.\<close>

datatype py_error = AttributeError | IndexError | ValidationError | StorageError string

definition quote :: string where
  "quote = [CHR 0x27]"

text \<open>The inner loop of \<^verbatim>\<open>_deduplicate_against_stored\<close> over the stored memories; the
  last argument is \<^verbatim>\<open>(best_match, best_similarity)\<close>.\<close>

fun find_best_match ::
  "CandidateMemory \<Rightarrow> StoredMemory list \<Rightarrow> StoredMemory option \<times> real \<Rightarrow> StoredMemory option \<times> real"
where
  "find_best_match candidate [] best = best"
| "find_best_match candidate (stored # rest) (best_match, best_similarity) =
     (if embedding stored = None then find_best_match candidate rest (best_match, best_similarity)
      else
        let similarity = calculate_text_similarity (content candidate) (final_content stored)
        in if similarity > best_similarity
           then find_best_match candidate rest (Some stored, similarity)
           else find_best_match candidate rest (best_match, best_similarity))"

text \<open>The loop over the candidates; the last argument is
  \<^verbatim>\<open>(decisions, remaining_candidates)\<close>. Reading \<^verbatim>\<open>best_match.final_content\<close> when no
  stored memory matched raises \<^verbatim>\<open>AttributeError\<close>.\<close>

fun against_stored_loop ::
  "Config \<Rightarrow> StoredMemory list \<Rightarrow> CandidateMemory list \<Rightarrow>
   MemoryDecision list \<times> CandidateMemory list \<Rightarrow>
   py_error + MemoryDecision list \<times> CandidateMemory list"
where
  "against_stored_loop cfg stored_memories [] acc = Inr acc"
| "against_stored_loop cfg stored_memories (candidate # rest) (decisions, remaining_candidates) =
     (case find_best_match candidate stored_memories (None, 0) of
        (best_match, best_similarity) \<Rightarrow>
          if best_similarity \<ge> SIMILARITY_THRESHOLD cfg then
            (case best_match of
               None \<Rightarrow> Inl AttributeError
             | Some m \<Rightarrow>
                 against_stored_loop cfg stored_memories rest
                   (decisions @
                      [\<lparr>action = ''merge'',
                        reason = [Lit ''Similarity '', Fixed3 best_similarity,
                                  Lit '' with stored memory '', Lit quote,
                                  Lit (take 50 (final_content m)), Lit ''...'', Lit quote],
                        merged_with = s_id m, admin_notes = None\<rparr>],
                    remaining_candidates))
          else
            against_stored_loop cfg stored_memories rest
              (decisions, remaining_candidates @ [candidate]))"

definition deduplicate_against_stored ::
  "Config \<Rightarrow> CandidateMemory list \<Rightarrow> StoredMemory list \<Rightarrow>
   py_error + MemoryDecision list \<times> CandidateMemory list"
where
  "deduplicate_against_stored cfg cs stored_memories =
     against_stored_loop cfg stored_memories cs ([], [])"

text \<open>The body of the inner loop of \<^verbatim>\<open>_deduplicate_candidates\<close> for the pair of indices
  \<open>i < j\<close>; the state is \<^verbatim>\<open>(decisions, processed)\<close>.\<close>

definition compare_pair ::
  "Config \<Rightarrow> nat \<Rightarrow> CandidateMemory \<Rightarrow> nat \<Rightarrow> CandidateMemory \<Rightarrow>
   MemoryDecision list \<times> nat set \<Rightarrow> MemoryDecision list \<times> nat set"
where
  "compare_pair cfg i candidate1 j candidate2 st =
     (case st of (decisions, processed) \<Rightarrow>
        if j \<in> processed then (decisions, processed)
        else
          let similarity = calculate_text_similarity (content candidate1) (content candidate2)
          in if similarity \<ge> SIMILARITY_THRESHOLD cfg then
               let (keep_candidate, merge_candidate, keep_idx, merge_idx) =
                     (if salience_score candidate1 \<ge> salience_score candidate2
                      then (candidate1, candidate2, i, j)
                      else (candidate2, candidate1, j, i))
               in (decisions @
                     [\<lparr>action = ''merge'',
                       reason = [Lit ''Similarity '', Fixed3 similarity, Lit '' with candidate '',
                                 Lit quote, Lit (take 50 (content merge_candidate)), Lit ''...'',
                                 Lit quote],
                       merged_with = c_id keep_candidate, admin_notes = None\<rparr>],
                   insert merge_idx processed)
             else (decisions, processed))"

text \<open>\<^verbatim>\<open>for j, candidate2 in enumerate(candidates[i+1:], i+1)\<close>: the list is the rest of the
  candidates, \<open>j\<close> the index of its head.\<close>

fun inner_loop ::
  "Config \<Rightarrow> nat \<Rightarrow> CandidateMemory \<Rightarrow> nat \<Rightarrow> CandidateMemory list \<Rightarrow>
   MemoryDecision list \<times> nat set \<Rightarrow> MemoryDecision list \<times> nat set"
where
  "inner_loop cfg i candidate1 j [] st = st"
| "inner_loop cfg i candidate1 j (candidate2 # rest) st =
     inner_loop cfg i candidate1 (Suc j) rest (compare_pair cfg i candidate1 j candidate2 st)"

text \<open>\<^verbatim>\<open>for i, candidate1 in enumerate(candidates)\<close>: the list is what is left of the
  candidates, \<open>i\<close> the index of its head.\<close>

fun outer_loop ::
  "Config \<Rightarrow> nat \<Rightarrow> CandidateMemory list \<Rightarrow> MemoryDecision list \<times> nat set \<Rightarrow>
   MemoryDecision list \<times> nat set"
where
  "outer_loop cfg i [] st = st"
| "outer_loop cfg i (candidate1 # rest) st =
     outer_loop cfg (Suc i) rest
       (if i \<in> snd st then st else inner_loop cfg i candidate1 (Suc i) rest st)"

definition deduplicate_candidates :: "Config \<Rightarrow> CandidateMemory list \<Rightarrow> MemoryDecision list" where
  "deduplicate_candidates cfg cs = fst (outer_loop cfg 0 cs ([], {}))"

definition deduplicate_memories ::
  "Config \<Rightarrow> CandidateMemory list \<Rightarrow> StoredMemory list \<Rightarrow>
   py_error + MemoryDecision list \<times> CandidateMemory list"
where
  "deduplicate_memories cfg cs stored_memories =
     (case deduplicate_against_stored cfg cs stored_memories of
        Inl e \<Rightarrow> Inl e
      | Inr (decisions, remaining_candidates) \<Rightarrow>
          if length remaining_candidates > 1
          then Inr (decisions @ deduplicate_candidates cfg remaining_candidates,
                    remaining_candidates)
          else Inr (decisions, remaining_candidates))"

text \<open>The test \<^verbatim>\<open>best_similarity >= self.similarity_threshold\<close> of the first pass, for one
  candidate.\<close>

definition merges_with_stored :: "Config \<Rightarrow> StoredMemory list \<Rightarrow> CandidateMemory \<Rightarrow> bool" where
  "merges_with_stored cfg stored_memories candidate =
     (snd (find_best_match candidate stored_memories (None, 0)) \<ge> SIMILARITY_THRESHOLD cfg)"

text \<open>The indices that the within-batch pass marks for merge (the final value of
  \<^verbatim>\<open>processed\<close>), and what the returned residual list is claimed to be: the candidates
  that no pass emitted a decision for.\<close>

definition merged_in_batch :: "Config \<Rightarrow> CandidateMemory list \<Rightarrow> nat set" where
  "merged_in_batch cfg cs = (if length cs > 1 then snd (outer_loop cfg 0 cs ([], {})) else {})"

definition undecided_candidates ::
  "Config \<Rightarrow> CandidateMemory list \<Rightarrow> StoredMemory list \<Rightarrow> py_error + CandidateMemory list"
where
  "undecided_candidates cfg cs stored_memories =
     (case deduplicate_against_stored cfg cs stored_memories of
        Inl e \<Rightarrow> Inl e
      | Inr (decisions, survivors) \<Rightarrow>
          Inr (map (\<lambda>k. survivors ! k)
                 (filter (\<lambda>k. k \<notin> merged_in_batch cfg survivors) [0..<length survivors])))"

subsection \<open>The within-batch pass on a batch sorted by salience\<close>

text \<open>Two candidates are similar when the test \<^verbatim>\<open>similarity >= self.similarity_threshold\<close>
  holds; \<open>merge_of\<close> is the decision the pass appends; \<open>dedup_inv\<close> is the invariant of the
  outer loop before index \<open>i\<close> is visited.\<close>

definition similar :: "Config \<Rightarrow> CandidateMemory \<Rightarrow> CandidateMemory \<Rightarrow> bool" where
  "similar cfg a b =
     (calculate_text_similarity (content a) (content b) \<ge> SIMILARITY_THRESHOLD cfg)"

definition merge_of :: "CandidateMemory \<Rightarrow> CandidateMemory \<Rightarrow> MemoryDecision" where
  "merge_of keep_candidate merge_candidate =
     \<lparr>action = ''merge'',
      reason = [Lit ''Similarity '',
                Fixed3 (calculate_text_similarity (content keep_candidate) (content merge_candidate)),
                Lit '' with candidate '', Lit quote, Lit (take 50 (content merge_candidate)),
                Lit ''...'', Lit quote],
      merged_with = c_id keep_candidate, admin_notes = None\<rparr>"

definition dedup_inv ::
  "Config \<Rightarrow> CandidateMemory list \<Rightarrow> nat \<Rightarrow> MemoryDecision list \<times> nat set \<Rightarrow> bool" where
  "dedup_inv cfg cs i st =
     (case st of (ds, P) \<Rightarrow>
        length ds = card P \<and>
        (\<forall>j\<in>P. j < length cs \<and>
           (\<exists>k<j. k < i \<and> k \<notin> P \<and> similar cfg (cs ! k) (cs ! j) \<and>
                  merge_of (cs ! k) (cs ! j) \<in> set ds \<and>
                  (\<forall>k'<k. k' \<notin> P \<longrightarrow> \<not> similar cfg (cs ! k') (cs ! j)))) \<and>
        (\<forall>k<i. \<forall>j<length cs. k < j \<and> k \<notin> P \<and> j \<notin> P \<longrightarrow> \<not> similar cfg (cs ! k) (cs ! j)) \<and>
        (\<forall>d\<in>set ds. action d = ''merge'' \<and>
           (\<exists>k j. k < j \<and> j < length cs \<and> k < i \<and> k \<notin> P \<and> j \<in> P \<and>
                  d = merge_of (cs ! k) (cs ! j))))"

subsection \<open>Storage (storage.py)\<close>

text \<open>
  The MongoDB client is outside the repository. Its three collections are kept in a record;
  a document of the stored and of the buffered collection is paired with its \<^verbatim>\<open>_id\<close>, and
  both collections are read as finite maps from \<^verbatim>\<open>_id\<close>: an insert under an \<^verbatim>\<open>_id\<close> that
  is taken raises a duplicate-key error. An \<^verbatim>\<open>ObjectId\<close> is a natural number, written as 24
  hexadecimal digits. The \<^verbatim>\<open>_id\<close> of a stored document is \<open>Some\<close> ObjectId or \<open>None\<close>, the
  null value: \<^verbatim>\<open>store_memory\<close> sets the key \<^verbatim>\<open>_id\<close> of its document to \<^verbatim>\<open>None\<close>, and the
  client generates an ObjectId only for a document without that key, as those of
  \<^verbatim>\<open>buffer_memory\<close> are; it takes them from a counter. Every call of the client first
  takes the next entry of \<open>faults\<close>: \<open>Some msg\<close> makes the call raise with that message,
  \<open>None\<close> (or no entry left) lets it work.
\<close>

record AuditLog =
  log_action :: string
  log_memory_id :: string
  log_memory_type :: string
  log_content :: string
  log_salience_score :: real
  log_decision :: "MemoryDecision option"
  log_evidence :: string

record database =
  stored_coll :: "(nat option \<times> StoredMemory) list"
  buffered_coll :: "(nat \<times> BufferedMemory) list"
  audit_coll :: "AuditLog list"
  next_oid :: nat
  faults :: "string option list"

definition hex_value :: "char \<Rightarrow> nat option" where
  "hex_value c =
     (let n = (of_char c :: nat)
      in if 48 \<le> n \<and> n \<le> 57 then Some (n - 48)
         else if 97 \<le> n \<and> n \<le> 102 then Some (n - 87)
         else if 65 \<le> n \<and> n \<le> 70 then Some (n - 55)
         else None)"

fun parse_hex :: "string \<Rightarrow> nat \<Rightarrow> nat option" where
  "parse_hex [] acc = Some acc"
| "parse_hex (c # cs) acc =
     (case hex_value c of None \<Rightarrow> None | Some d \<Rightarrow> parse_hex cs (16 * acc + d))"

text \<open>\<^verbatim>\<open>ObjectId(memory_id)\<close> of a string: \<open>None\<close> where Python raises \<^verbatim>\<open>InvalidId\<close>.\<close>

definition ObjectId :: "string \<Rightarrow> nat option" where
  "ObjectId s = (if length s = 24 then parse_hex s 0 else None)"

text \<open>\<^verbatim>\<open>str\<close> of an \<^verbatim>\<open>ObjectId\<close>: its 24 hexadecimal digits, the lowest one computed
  first.\<close>

fun hex_digits :: "nat \<Rightarrow> nat \<Rightarrow> string \<Rightarrow> string" where
  "hex_digits 0 n acc = acc"
| "hex_digits (Suc k) n acc =
     hex_digits k (n div 16) ((''0123456789abcdef'' ! (n mod 16)) # acc)"

definition str_ObjectId :: "nat \<Rightarrow> string" where
  "str_ObjectId n = hex_digits 24 n []"

text \<open>\<^verbatim>\<open>str\<close> of the \<^verbatim>\<open>_id\<close> of a stored document.\<close>

definition str_id :: "nat option \<Rightarrow> string" where
  "str_id key = (case key of None \<Rightarrow> ''None'' | Some n \<Rightarrow> str_ObjectId n)"

definition db_call :: "database \<Rightarrow> string option \<times> database" where
  "db_call db = (case faults db of [] \<Rightarrow> (None, db) | f # fs \<Rightarrow> (f, db\<lparr>faults := fs\<rparr>))"

text \<open>\<^verbatim>\<open>insert_one\<close> of a document whose key \<^verbatim>\<open>_id\<close> is set to \<open>key\<close>; the result carries
  that \<^verbatim>\<open>_id\<close>.\<close>

definition insert_one_stored ::
  "database \<Rightarrow> nat option \<Rightarrow> StoredMemory \<Rightarrow> (py_error + nat option) \<times> database" where
  "insert_one_stored db key doc =
     (case db_call db of
        (Some msg, db1) \<Rightarrow> (Inl (StorageError msg), db1)
      | (None, db1) \<Rightarrow>
          if map_of (stored_coll db1) key = None then
            (Inr key, db1\<lparr>stored_coll := (key, doc) # stored_coll db1\<rparr>)
          else (Inl (StorageError ''duplicate key''), db1))"

definition insert_one_buffered :: "database \<Rightarrow> BufferedMemory \<Rightarrow> (py_error + nat) \<times> database" where
  "insert_one_buffered db doc =
     (case db_call db of
        (Some msg, db1) \<Rightarrow> (Inl (StorageError msg), db1)
      | (None, db1) \<Rightarrow>
          if map_of (buffered_coll db1) (next_oid db1) = None then
            (Inr (next_oid db1),
             db1\<lparr>buffered_coll := (next_oid db1, doc) # buffered_coll db1,
                 next_oid := Suc (next_oid db1)\<rparr>)
          else (Inl (StorageError ''duplicate key''), db1))"

definition find_one_buffered ::
  "database \<Rightarrow> nat \<Rightarrow> (py_error + BufferedMemory option) \<times> database" where
  "find_one_buffered db object_id =
     (case db_call db of
        (Some msg, db1) \<Rightarrow> (Inl (StorageError msg), db1)
      | (None, db1) \<Rightarrow> (Inr (map_of (buffered_coll db1) object_id), db1))"

definition delete_one_buffered :: "database \<Rightarrow> nat \<Rightarrow> (py_error + unit) \<times> database" where
  "delete_one_buffered db object_id =
     (case db_call db of
        (Some msg, db1) \<Rightarrow> (Inl (StorageError msg), db1)
      | (None, db1) \<Rightarrow>
          (Inr (), db1\<lparr>buffered_coll := filter (\<lambda>d. fst d \<noteq> object_id) (buffered_coll db1)\<rparr>))"

text \<open>\<^verbatim>\<open>_log_audit\<close> swallows a failure of its insert.\<close>

definition log_audit ::
  "database \<Rightarrow> string \<Rightarrow> string \<Rightarrow> MemoryDecision option \<Rightarrow> CandidateMemory \<Rightarrow> database" where
  "log_audit db act memory_id decision candidate =
     (case db_call db of
        (Some msg, db1) \<Rightarrow> db1
      | (None, db1) \<Rightarrow>
          db1\<lparr>audit_coll := audit_coll db1 @
                [\<lparr>log_action = act, log_memory_id = memory_id,
                  log_memory_type = MemoryType_value (memory_type candidate),
                  log_content = content candidate,
                  log_salience_score = salience_score candidate,
                  log_decision = decision,
                  log_evidence = extraction_evidence candidate\<rparr>]\<rparr>)"

definition generate_embedding :: "string \<Rightarrow> embedding_vector" where
  "generate_embedding txt = Seeded_by txt"

text \<open>\<^verbatim>\<open>store_memory\<close> sets \<^verbatim>\<open>memory_dict["_id"] = None\<close>, hands the document to
  \<^verbatim>\<open>insert_one\<close> and returns \<^verbatim>\<open>str(result.inserted_id)\<close>; the \<^verbatim>\<open>id\<close> field of the
  document is still \<^verbatim>\<open>None\<close> when it is written.\<close>

definition store_memory ::
  "database \<Rightarrow> CandidateMemory \<Rightarrow> MemoryDecision \<Rightarrow> string \<Rightarrow> (py_error + string) \<times> database" where
  "store_memory db candidate decision content_to_store =
     (let stored_memory =
            \<lparr>s_id = None, s_candidate = candidate, s_decision = decision,
             final_content = content_to_store,
             embedding = Some (generate_embedding content_to_store)\<rparr>
      in case insert_one_stored db None stored_memory of
           (Inl e, db1) \<Rightarrow> (Inl e, db1)
         | (Inr inserted_id, db1) \<Rightarrow>
             (Inr (str_id inserted_id),
              log_audit db1 ''store'' (str_id inserted_id) (Some decision) candidate))"

definition buffer_memory ::
  "database \<Rightarrow> CandidateMemory \<Rightarrow> fstring \<Rightarrow> real \<Rightarrow> (py_error + string) \<times> database" where
  "buffer_memory db candidate why score =
     (let buffered_memory =
            \<lparr>b_id = None, b_candidate = candidate, buffer_reason = why, buffer_score = score\<rparr>
      in case insert_one_buffered db buffered_memory of
           (Inl e, db1) \<Rightarrow> (Inl e, db1)
         | (Inr oid, db1) \<Rightarrow>
             (Inr (str_ObjectId oid),
              log_audit db1 ''buffer'' (str_ObjectId oid) None candidate))"

text \<open>The bounds that \<^verbatim>\<open>models.py\<close> declares on the fields of a \<^verbatim>\<open>CandidateMemory\<close>;
  building one from a document that breaks them raises.\<close>

definition valid_candidate :: "CandidateMemory \<Rightarrow> bool" where
  "valid_candidate c =
     (0 \<le> confidence c \<and> confidence c \<le> 1 \<and> 0 \<le> relevance c \<and> relevance c \<le> 1 \<and>
      0 \<le> specificity c \<and> specificity c \<le> 1 \<and> 0 \<le> salience_score c \<and> salience_score c \<le> 1)"

text \<open>\<^verbatim>\<open>get_stored_memories\<close>: the newest documents first (a limit of 0 is no limit); any
  failure gives the empty list.\<close>

definition get_stored_memories :: "database \<Rightarrow> nat \<Rightarrow> nat \<Rightarrow> StoredMemory list \<times> database" where
  "get_stored_memories db limit offset =
     (case db_call db of
        (Some msg, db1) \<Rightarrow> ([], db1)
      | (None, db1) \<Rightarrow>
          let docs = drop offset (stored_coll db1);
              page = (if limit = 0 then docs else take limit docs)
          in if list_all (\<lambda>d. valid_candidate (s_candidate (snd d))) page
             then (map (\<lambda>d. (snd d)\<lparr>s_id := Some (str_id (fst d))\<rparr>) page, db1)
             else ([], db1))"

definition approve_buffered_memory ::
  "database \<Rightarrow> string \<Rightarrow> string option \<Rightarrow> bool \<times> database" where
  "approve_buffered_memory db memory_id notes =
     (case ObjectId memory_id of
        None \<Rightarrow> (False, db)
      | Some object_id \<Rightarrow>
          (case find_one_buffered db object_id of
             (Inl e, db1) \<Rightarrow> (False, db1)
           | (Inr None, db1) \<Rightarrow> (False, db1)
           | (Inr (Some buffered_doc), db1) \<Rightarrow>
               let candidate = b_candidate buffered_doc
               in if valid_candidate candidate then
                    let decision = \<lparr>action = ''keep'', reason = [Lit ''Approved by admin''],
                                    merged_with = None, admin_notes = notes\<rparr>
                    in (case store_memory db1 candidate decision (content candidate) of
                          (Inl e, db2) \<Rightarrow> (False, db2)
                        | (Inr new_id, db2) \<Rightarrow>
                            (case delete_one_buffered db2 object_id of
                               (Inl e, db3) \<Rightarrow> (False, db3)
                             | (Inr u, db3) \<Rightarrow>
                                 (True, log_audit db3 ''approve'' new_id (Some decision) candidate)))
                  else (False, db1)))"

definition reject_buffered_memory ::
  "database \<Rightarrow> string \<Rightarrow> string option \<Rightarrow> bool \<times> database" where
  "reject_buffered_memory db memory_id notes =
     (case ObjectId memory_id of
        None \<Rightarrow> (False, db)
      | Some object_id \<Rightarrow>
          (case find_one_buffered db object_id of
             (Inl e, db1) \<Rightarrow> (False, db1)
           | (Inr None, db1) \<Rightarrow> (False, db1)
           | (Inr (Some buffered_doc), db1) \<Rightarrow>
               if valid_candidate (b_candidate buffered_doc) then
                 let decision = \<lparr>action = ''reject'', reason = [Lit ''Rejected by admin review''],
                                 merged_with = None, admin_notes = notes\<rparr>;
                     db2 = log_audit db1 ''reject'' memory_id (Some decision)
                             (b_candidate buffered_doc)
                 in (case delete_one_buffered db2 object_id of
                       (Inl e, db3) \<Rightarrow> (False, db3)
                     | (Inr u, db3) \<Rightarrow> (True, db3))
               else (False, db1)))"

subsection \<open>Decider service (decider_service.py) and the approve endpoint (main.py)\<close>

text \<open>\<^verbatim>\<open>str(e)\<close> of an exception.\<close>

fun error_message :: "py_error \<Rightarrow> string" where
  "error_message (StorageError msg) = msg"
| "error_message AttributeError = ''AttributeError''"
| "error_message IndexError = ''list index out of range''"
| "error_message ValidationError = ''validation error''"

text \<open>The body of the loop of \<^verbatim>\<open>extract_and_store\<close> once the decision is chosen. The first
  \<^verbatim>\<open>if\<close> may rewrite the decision in place; the second one reads the rewritten action.
  The counters are \<^verbatim>\<open>(stored_count, buffered_count, rejected_count)\<close>.\<close>

definition execute_decision ::
  "database \<Rightarrow> CandidateMemory \<Rightarrow> real \<Rightarrow> MemoryDecision \<Rightarrow> nat \<times> nat \<times> nat \<Rightarrow>
   MemoryDecision \<times> (nat \<times> nat \<times> nat) \<times> database"
where
  "execute_decision db candidate score decision counts =
     (case counts of (sc, bc, rc) \<Rightarrow>
        let (decision1, sc1, db1) =
              (if action decision = ''keep'' then
                 (case store_memory db candidate decision (content candidate) of
                    (Inr memory_id, db') \<Rightarrow> (decision, sc + 1, db')
                  | (Inl e, db') \<Rightarrow>
                      (decision\<lparr>action := ''buffer'',
                                reason := [Lit ''Storage failed, buffering instead: '',
                                           Lit (error_message e)]\<rparr>,
                       sc, db'))
               else (decision, sc, db))
        in if action decision1 = ''buffer'' then
             (case buffer_memory db1 candidate (reason decision1) score of
                (Inr buffer_id, db2) \<Rightarrow> (decision1, (sc1, bc + 1, rc), db2)
              | (Inl e, db2) \<Rightarrow> (decision1, (sc1, bc, rc + 1), db2))
           else if action decision1 = ''reject'' then (decision1, (sc1, bc, rc + 1), db1)
           else (decision1, (sc1, bc, rc), db1))"

text \<open>\<^verbatim>\<open>for i, (candidate, score) in enumerate(scored_candidates)\<close> with
  \<^verbatim>\<open>decision = all_decisions[i] if i < len(all_decisions) else initial_decisions[i]\<close>.
  The state is \<^verbatim>\<open>all_decisions\<close>, the three counters and the database; a decision
  rewritten in place is written back at its index.\<close>

fun process_decisions ::
  "MemoryDecision list \<Rightarrow> nat \<Rightarrow> (CandidateMemory \<times> real) list \<Rightarrow>
   MemoryDecision list \<times> (nat \<times> nat \<times> nat) \<times> database \<Rightarrow>
   py_error \<times> database + MemoryDecision list \<times> (nat \<times> nat \<times> nat) \<times> database"
where
  "process_decisions initial_decisions i [] st = Inr st"
| "process_decisions initial_decisions i ((candidate, score) # rest) (all_decisions, counts, db) =
     (if i < length all_decisions then
        (case execute_decision db candidate score (all_decisions ! i) counts of
           (decision1, counts1, db1) \<Rightarrow>
             process_decisions initial_decisions (Suc i) rest
               (all_decisions[i := decision1], counts1, db1))
      else if i < length initial_decisions then
        (case execute_decision db candidate score (initial_decisions ! i) counts of
           (decision1, counts1, db1) \<Rightarrow>
             process_decisions initial_decisions (Suc i) rest (all_decisions, counts1, db1))
      else Inl (IndexError, db))"

text \<open>\<^verbatim>\<open>extract_and_store\<close> from the list the extractor returned for the request (the
  extractor's pattern matching is not modelled).\<close>

definition extract_and_store ::
  "Config \<Rightarrow> database \<Rightarrow> CandidateMemory list \<Rightarrow> (py_error + ExtractionResponse) \<times> database"
where
  "extract_and_store cfg db extracted =
     (if extracted = [] then
        (Inr \<lparr>resp_candidates = [], resp_decisions = [], resp_stored_count = 0,
              resp_buffered_count = 0, resp_rejected_count = 0\<rparr>, db)
      else
        let scored_candidates = score_memories cfg extracted;
            initial_decisions = make_decisions cfg scored_candidates
        in case get_stored_memories db 1000 0 of
             (stored, db1) \<Rightarrow>
               (case deduplicate_memories cfg (map fst scored_candidates) stored of
                  Inl e \<Rightarrow> (Inl e, db1)
                | Inr (dedup_decisions, remaining_candidates) \<Rightarrow>
                    (case process_decisions initial_decisions 0 scored_candidates
                            (initial_decisions @ dedup_decisions, (0, 0, 0), db1) of
                       Inl (e, db2) \<Rightarrow> (Inl e, db2)
                     | Inr (all_decisions, (sc, bc, rc), db2) \<Rightarrow>
                         (Inr \<lparr>resp_candidates = map fst scored_candidates,
                               resp_decisions = all_decisions,
                               resp_stored_count = sc, resp_buffered_count = bc,
                               resp_rejected_count = rc\<rparr>, db2))))"

text \<open>The endpoint \<^verbatim>\<open>POST /buffer/{memory_id}/approve\<close>. The service method between the
  endpoint and the storage only forwards the call. The \<^verbatim>\<open>HTTPException(404)\<close> raised on
  failure is caught by the endpoint's own \<^verbatim>\<open>except Exception\<close> and raised again with
  status 500.\<close>

datatype http_result = Memory_approved string | HTTPException nat

definition approve_endpoint ::
  "database \<Rightarrow> string \<Rightarrow> AdminReviewRequest \<Rightarrow> http_result \<times> database" where
  "approve_endpoint db memory_id request =
     (case approve_buffered_memory db memory_id (r_notes request) of
        (success, db1) \<Rightarrow>
          if success then (Memory_approved memory_id, db1) else (HTTPException 500, db1))"

text \<open>The two admin operations under one name.\<close>

datatype admin_action = Approve | Reject

fun resolve_buffered ::
  "admin_action \<Rightarrow> database \<Rightarrow> string \<Rightarrow> string option \<Rightarrow> bool \<times> database" where
  "resolve_buffered Approve db memory_id notes = approve_buffered_memory db memory_id notes"
| "resolve_buffered Reject db memory_id notes = reject_buffered_memory db memory_id notes"

subsection \<open>Example inputs\<close>

definition user_turn :: "string \<Rightarrow> ConversationTurn" where
  "user_turn t = \<lparr>speaker = ''user'', turn_text = t\<rparr>"

definition marathon_goal :: CandidateMemory where
  "marathon_goal =
     \<lparr>c_id = None, memory_type = GOAL, content = ''run a marathon'',
      confidence = 0.8, relevance = 0.5, specificity = 0.5, salience_score = 0.62,
      source_turn = user_turn ''I want to run a marathon.'',
      extraction_evidence = ''Pattern match''\<rparr>"

definition hiking :: "string option \<Rightarrow> string \<Rightarrow> real \<Rightarrow> CandidateMemory" where
  "hiking ident txt score =
     \<lparr>c_id = ident, memory_type = PREFERENCE, content = txt,
      confidence = 0.8, relevance = 0.5, specificity = 0.5, salience_score = score,
      source_turn = user_turn ''I love hiking on weekends.'',
      extraction_evidence = ''Pattern match''\<rparr>"

definition empty_db :: database where
  "empty_db = \<lparr>stored_coll = [], buffered_coll = [], audit_coll = [], next_oid = 0, faults = []\<rparr>"

definition buffered_hike :: BufferedMemory where
  "buffered_hike =
     \<lparr>b_id = None, b_candidate = hiking None ''long hikes in autumn'' 0.45,
      buffer_reason = [Lit ''needs review''], buffer_score = 0.45\<rparr>"

text \<open>A database that holds one stored memory, under the ObjectId 1, and one buffered
  memory, under the ObjectId 2.\<close>

definition hiking_db :: database where
  "hiking_db =
     \<lparr>stored_coll =
        [(Some 1, \<lparr>s_id = None, s_candidate = hiking None ''hiking on weekends'' 0.59,
              s_decision = \<lparr>action = ''keep'', reason = [Lit ''Approved by admin''],
                             merged_with = None, admin_notes = None\<rparr>,
              final_content = ''hiking on weekends'',
              embedding = Some (Seeded_by ''hiking on weekends'')\<rparr>)],
      buffered_coll = [(2, buffered_hike)],
      audit_coll = [], next_oid = 3, faults = []\<rparr>"

definition id2 :: string where
  "id2 = ''000000000000000000000002''"

text \<open>The same database when the next call of the client works and the one after it
  raises.\<close>

definition failing_db :: database where
  "failing_db = hiking_db\<lparr>faults := [None, Some ''down'']\<rparr>"

text \<open>A candidate that matches nothing stored, the decision the scorer takes for it, and
  the database when the next call, or the next two calls, of the client raise.\<close>

definition beach_walk :: CandidateMemory where
  "beach_walk = hiking None ''walking on beaches'' 0.59"

definition keep_beach_walk :: MemoryDecision where
  "keep_beach_walk = evaluate_candidate default_Config beach_walk 0.59"



definition all_down_db :: database where
  "all_down_db = hiking_db\<lparr>faults := [Some ''down'', Some ''still down'']\<rparr>"

text \<open>The database after \<open>store_memory\<close> has stored a first memory in \<open>hiking_db\<close>.\<close>

definition after_first_store_db :: database where
  "after_first_store_db =
     snd (store_memory hiking_db beach_walk keep_beach_walk (content beach_walk))"

definition review_request :: AdminReviewRequest where
  "review_request =
     \<lparr>r_memory_id = id2, r_action = ''approve'', r_notes = Some ''reworded'',
      r_modified_content = Some ''I enjoy long hikes.''\<rparr>"

text \<open>The same sentence twice in one batch, and the decision that merges a candidate with
  that content into another candidate of the batch.\<close>

definition hike_twice :: "CandidateMemory list" where
  "hike_twice = [hiking None ''hiking on weekends'' 0.59, hiking None ''Hiking on weekends'' 0.59]"

definition merge_candidate_into :: "string \<Rightarrow> string option \<Rightarrow> MemoryDecision" where
  "merge_candidate_into merged kept =
     \<lparr>action = ''merge'',
      reason = [Lit ''Similarity '', Fixed3 1, Lit '' with candidate '', Lit quote,
                Lit merged, Lit ''...'', Lit quote],
      merged_with = kept, admin_notes = None\<rparr>"

text \<open>The stored memory of \<open>hiking_db\<close> as \<^verbatim>\<open>get_stored_memories\<close> returns it, and the
  decision that merges a candidate into it.\<close>

definition stored_hike :: StoredMemory where
  "stored_hike =
     \<lparr>s_id = Some ''000000000000000000000001'',
      s_candidate = hiking None ''hiking on weekends'' 0.59,
      s_decision = \<lparr>action = ''keep'', reason = [Lit ''Approved by admin''],
                     merged_with = None, admin_notes = None\<rparr>,
      final_content = ''hiking on weekends'',
      embedding = Some (Seeded_by ''hiking on weekends'')\<rparr>"

definition merge_into_stored_hike :: MemoryDecision where
  "merge_into_stored_hike =
     \<lparr>action = ''merge'',
      reason = [Lit ''Similarity '', Fixed3 1, Lit '' with stored memory '', Lit quote,
                Lit ''hiking on weekends'', Lit ''...'', Lit quote],
      merged_with = Some ''000000000000000000000001'', admin_notes = None\<rparr>"

text \<open>Three candidates with the same words, the first one neither the best nor the worst
  of them.\<close>

definition unsorted_hikes :: "CandidateMemory list" where
  "unsorted_hikes =
     [hiking (Some ''a'') ''hiking on weekends'' 0.5,
      hiking (Some ''b'') ''Hiking on weekends'' 0.9,
      hiking (Some ''c'') ''hiking ON weekends'' 0.3]"

section \<open>Properties\<close>

subsection \<open>Scorer\<close>

text \<open>
  Claim C8. With the global buffer threshold below the threshold of the candidate's type,
  a score at or above the type threshold is kept, a score from the buffer threshold up to
  (not including) the type threshold is buffered, a score below the buffer threshold is
  rejected; a score equal to the buffer threshold is buffered.
\<close>

theorem evaluate_candidate_thresholds:
  assumes "BUFFER_THRESHOLD cfg < type_threshold cfg candidate"
  shows "(type_threshold cfg candidate \<le> score \<longrightarrow>
            action (evaluate_candidate cfg candidate score) = ''keep'') \<and>
         (BUFFER_THRESHOLD cfg \<le> score \<and> score < type_threshold cfg candidate \<longrightarrow>
            action (evaluate_candidate cfg candidate score) = ''buffer'') \<and>
         (score < BUFFER_THRESHOLD cfg \<longrightarrow>
            action (evaluate_candidate cfg candidate score) = ''reject'') \<and>
         action (evaluate_candidate cfg candidate (BUFFER_THRESHOLD cfg)) = ''buffer''"
  using assms by (simp add: evaluate_candidate_def Let_def)

theorem evaluate_candidate_thresholds_witness:
  "BUFFER_THRESHOLD default_Config < type_threshold default_Config marathon_goal \<and>
   type_threshold default_Config marathon_goal \<le> 0.7 \<and>
   action (evaluate_candidate default_Config marathon_goal 0.7) = ''keep'' \<and>
   BUFFER_THRESHOLD default_Config \<le> 0.55 \<and> 0.55 < type_threshold default_Config marathon_goal \<and>
   action (evaluate_candidate default_Config marathon_goal 0.55) = ''buffer'' \<and>
   0.3 < BUFFER_THRESHOLD default_Config \<and>
   action (evaluate_candidate default_Config marathon_goal 0.3) = ''reject'' \<and>
   action (evaluate_candidate default_Config marathon_goal 0.5) = ''buffer''"
proof -
  have t: "type_threshold default_Config marathon_goal = 0.6"
    by (simp add: type_threshold_def default_Config_def marathon_goal_def)
  have b: "BUFFER_THRESHOLD default_Config = 0.5"
    by (simp add: default_Config_def)
  have h: "BUFFER_THRESHOLD default_Config < type_threshold default_Config marathon_goal"
    by (simp add: t b)
  from evaluate_candidate_thresholds [OF h, of "0.7"]
       evaluate_candidate_thresholds [OF h, of "0.55"]
       evaluate_candidate_thresholds [OF h, of "0.3"]
  show ?thesis by (simp add: t b)
qed

subsection \<open>Deduper\<close>

lemma find_best_match_None:
  "find_best_match c stored (bm, bs) = (bm', bs') \<Longrightarrow> (bm = None \<longrightarrow> bs \<le> 0) \<Longrightarrow>
   bm' = None \<Longrightarrow> bs' \<le> 0"
proof (induction stored arbitrary: bm bs)
  case Nil
  then show ?case by simp
next
  case (Cons s stored)
  then show ?case
    by (auto simp: Let_def split: if_splits)
qed

lemma against_stored_loop_residual:
  "against_stored_loop cfg stored cs (ds, rem) = Inr (ds', rem') \<Longrightarrow>
   rem' = rem @ filter (\<lambda>c. \<not> merges_with_stored cfg stored c) cs \<and>
   length ds' = length ds + length (filter (merges_with_stored cfg stored) cs)"
proof (induction cs arbitrary: ds rem)
  case Nil
  then show ?case by simp
next
  case (Cons c cs)
  obtain bm bs where fb: "find_best_match c stored (None, 0) = (bm, bs)"
    by (cases "find_best_match c stored (None, 0)") 
  show ?case
  proof (cases "bs \<ge> SIMILARITY_THRESHOLD cfg")
    case True
    then have m: "merges_with_stored cfg stored c"
      by (simp add: merges_with_stored_def fb)
    from Cons.prems True fb obtain sm d where
      "against_stored_loop cfg stored cs (ds @ [d], rem) = Inr (ds', rem')"
      by (cases bm) auto
    from Cons.IH [OF this] m show ?thesis
      by simp
  next
    case False
    then have m: "\<not> merges_with_stored cfg stored c"
      by (simp add: merges_with_stored_def fb)
    from Cons.prems False fb have
      "against_stored_loop cfg stored cs (ds, rem @ [c]) = Inr (ds', rem')"
      by simp
    from Cons.IH [OF this] m show ?thesis
      by simp
  qed
qed

lemma against_stored_loop_total:
  "0 < SIMILARITY_THRESHOLD cfg \<Longrightarrow>
   \<exists>ds' rem'. against_stored_loop cfg stored cs (ds, rem) = Inr (ds', rem')"
proof (induction cs arbitrary: ds rem)
  case Nil
  then show ?case by simp
next
  case (Cons c cs)
  obtain bm bs where fb: "find_best_match c stored (None, 0) = (bm, bs)"
    by (cases "find_best_match c stored (None, 0)") 
  show ?case
  proof (cases "bs \<ge> SIMILARITY_THRESHOLD cfg")
    case True
    with Cons.prems have "\<not> bs \<le> 0" by simp
    with find_best_match_None [OF fb] have "bm \<noteq> None" by auto
    then obtain sm where "bm = Some sm" by auto
    with True fb Cons.IH [OF Cons.prems] show ?thesis
      by simp
  next
    case False
    with fb Cons.IH [OF Cons.prems] show ?thesis
      by simp
  qed
qed

text \<open>
  Claim C2 at a failing input. The same sentence is in the batch twice and nothing is
  stored. The first pass, which drops the candidates it merges from
  \<^verbatim>\<open>remaining_candidates\<close>, merges none. The within-batch pass emits a merge decision for
  the second candidate (index 1) and has no way to drop it: the candidates without a
  decision are the first one alone, and the residual list that \<open>deduplicate_memories\<close>
  returns still holds both.
\<close>

theorem deduplicate_memories_returns_merged_candidate:
  "deduplicate_memories default_Config hike_twice [] =
     Inr ([merge_candidate_into ''Hiking on weekends'' None], hike_twice) \<and>
   merged_in_batch default_Config hike_twice = {1} \<and>
   undecided_candidates default_Config hike_twice [] =
     Inr [hiking None ''hiking on weekends'' 0.59] \<and>
   length hike_twice = 2"
  by code_simp

subsection \<open>Text similarity\<close>

lemma similarity_commute:
  "calculate_text_similarity A B = calculate_text_similarity B A"
  by (simp add: calculate_text_similarity_def Let_def Int_commute Un_commute disj_commute)

lemma similarity_self:
  assumes "set (split (lower A)) \<noteq> {}"
  shows "calculate_text_similarity A A = 1"
proof -
  have "finite (set (split (lower A)))" by simp
  with assms have "card (set (split (lower A))) > 0"
    by (simp only: card_gt_0_iff) simp
  with assms show ?thesis
    by (simp add: calculate_text_similarity_def Let_def)
qed

lemma similarity_disjoint:
  assumes "set (split (lower A)) \<inter> set (split (lower B)) = {}"
  shows "calculate_text_similarity A B = 0"
  using assms by (simp add: calculate_text_similarity_def Let_def)

lemma similarity_empty:
  assumes "set (split (lower A)) = {} \<or> set (split (lower B)) = {}"
  shows "calculate_text_similarity A B = 0"
  using assms by (auto simp add: calculate_text_similarity_def Let_def)

text \<open>
  Claim C10. The similarity of two texts is symmetric; a text with at least one word has
  similarity 1 with itself; two texts that share no word have similarity 0; and the
  similarity is 0 when either text has no word at all.
\<close>

theorem text_similarity_properties:
  "calculate_text_similarity A B = calculate_text_similarity B A \<and>
   (set (split (lower A)) \<noteq> {} \<longrightarrow> calculate_text_similarity A A = 1) \<and>
   (set (split (lower A)) \<inter> set (split (lower B)) = {} \<longrightarrow> calculate_text_similarity A B = 0) \<and>
   (set (split (lower A)) = {} \<or> set (split (lower B)) = {} \<longrightarrow> calculate_text_similarity A B = 0)"
  using similarity_commute similarity_self similarity_disjoint similarity_empty by blast

theorem text_similarity_properties_witness:
  "calculate_text_similarity ''I love hiking'' ''Cats sleep'' =
     calculate_text_similarity ''Cats sleep'' ''I love hiking'' \<and>
   set (split (lower ''I love hiking'')) \<noteq> {} \<and>
   calculate_text_similarity ''I love hiking'' ''I love hiking'' = 1 \<and>
   set (split (lower ''I love hiking'')) \<inter> set (split (lower ''Cats sleep'')) = {} \<and>
   calculate_text_similarity ''I love hiking'' ''Cats sleep'' = 0 \<and>
   set (split (lower ''  '')) = {} \<and>
   calculate_text_similarity ''  '' ''Cats sleep'' = 0"
proof -
  have h1: "set (split (lower ''I love hiking'')) \<noteq> {}"
    by code_simp
  have h2: "set (split (lower ''I love hiking'')) \<inter> set (split (lower ''Cats sleep'')) = {}"
    by code_simp
  have h3: "set (split (lower ''  '')) = {}"
    by code_simp
  from h1 h2 h3
    text_similarity_properties [of "''I love hiking''" "''Cats sleep''"]
    text_similarity_properties [of "''  ''" "''Cats sleep''"]
  show ?thesis by blast
qed

subsection \<open>Storage\<close>

lemma db_call_colls:
  "db_call db = (r, db1) \<Longrightarrow>
   stored_coll db1 = stored_coll db \<and> buffered_coll db1 = buffered_coll db \<and>
   audit_coll db1 = audit_coll db \<and> next_oid db1 = next_oid db"
  by (auto simp: db_call_def split: list.splits)

lemma db_call_no_faults:
  "faults db = [] \<Longrightarrow> db_call db = (None, db)"
  by (simp add: db_call_def)

lemma log_audit_colls:
  "stored_coll (log_audit db a m d c) = stored_coll db \<and>
   buffered_coll (log_audit db a m d c) = buffered_coll db \<and>
   next_oid (log_audit db a m d c) = next_oid db"
  by (cases "db_call db") (auto simp: log_audit_def dest: db_call_colls split: option.splits)

lemma log_audit_no_faults:
  "faults db = [] \<Longrightarrow> faults (log_audit db a m d c) = []"
  by (simp add: log_audit_def db_call_no_faults)

lemma find_one_buffered_result:
  "find_one_buffered db oid = (r, db1) \<Longrightarrow>
   stored_coll db1 = stored_coll db \<and> buffered_coll db1 = buffered_coll db \<and>
   audit_coll db1 = audit_coll db \<and> next_oid db1 = next_oid db \<and>
   (\<forall>x. r = Inr x \<longrightarrow> x = map_of (buffered_coll db) oid)"
  by (cases "db_call db") (auto simp: find_one_buffered_def dest: db_call_colls split: option.splits)

lemma delete_one_buffered_Inl:
  "delete_one_buffered db oid = (Inl e, db1) \<Longrightarrow>
   stored_coll db1 = stored_coll db \<and> buffered_coll db1 = buffered_coll db \<and>
   audit_coll db1 = audit_coll db"
  by (cases "db_call db") (auto simp: delete_one_buffered_def dest: db_call_colls split: option.splits)

lemma map_of_filter_out:
  "map_of (filter (\<lambda>d. fst d \<noteq> k) xs) k = None"
  by (induction xs) auto

lemma delete_one_buffered_Inr:
  "delete_one_buffered db oid = (Inr u, db1) \<Longrightarrow>
   stored_coll db1 = stored_coll db \<and> audit_coll db1 = audit_coll db \<and>
   buffered_coll db1 = filter (\<lambda>d. fst d \<noteq> oid) (buffered_coll db) \<and>
   map_of (buffered_coll db1) oid = None"
  by (cases "db_call db") (auto simp: delete_one_buffered_def map_of_filter_out dest: db_call_colls split: option.splits)

lemma store_memory_Inl:
  "store_memory db c d txt = (Inl e, db1) \<Longrightarrow>
   stored_coll db1 = stored_coll db \<and> buffered_coll db1 = buffered_coll db \<and>
   audit_coll db1 = audit_coll db"
  by (cases "db_call db")
     (auto simp: store_memory_def insert_one_stored_def Let_def dest: db_call_colls
           split: option.splits if_splits)

lemma store_memory_Inr:
  "store_memory db c d txt = (Inr new_id, db1) \<Longrightarrow>
   stored_coll db1 =
     (None, \<lparr>s_id = None, s_candidate = c, s_decision = d, final_content = txt,
             embedding = Some (generate_embedding txt)\<rparr>) # stored_coll db \<and>
   buffered_coll db1 = buffered_coll db \<and> new_id = ''None''"
  by (cases "db_call db")
     (auto simp: store_memory_def insert_one_stored_def Let_def log_audit_colls str_id_def
           dest: db_call_colls split: option.splits if_splits)

lemma approve_cases:
  assumes oid: "ObjectId memory_id = Some oid"
    and doc: "map_of (buffered_coll db) oid = Some doc"
    and res: "approve_buffered_memory db memory_id notes = (ok, db')"
  shows "(ok \<and>
          stored_coll db' =
            (None,
             \<lparr>s_id = None, s_candidate = b_candidate doc,
              s_decision = \<lparr>action = ''keep'', reason = [Lit ''Approved by admin''],
                             merged_with = None, admin_notes = notes\<rparr>,
              final_content = content (b_candidate doc),
              embedding = Some (generate_embedding (content (b_candidate doc)))\<rparr>) #
            stored_coll db \<and>
          map_of (buffered_coll db') oid = None) \<or>
         (\<not> ok \<and>
          stored_coll db' =
            (None,
             \<lparr>s_id = None, s_candidate = b_candidate doc,
              s_decision = \<lparr>action = ''keep'', reason = [Lit ''Approved by admin''],
                             merged_with = None, admin_notes = notes\<rparr>,
              final_content = content (b_candidate doc),
              embedding = Some (generate_embedding (content (b_candidate doc)))\<rparr>) #
            stored_coll db \<and>
          buffered_coll db' = buffered_coll db) \<or>
         (\<not> ok \<and> stored_coll db' = stored_coll db \<and> buffered_coll db' = buffered_coll db \<and>
          audit_coll db' = audit_coll db)"
proof -
  obtain r db1 where f: "find_one_buffered db oid = (r, db1)"
    by (cases "find_one_buffered db oid")
  note f1 = find_one_buffered_result [OF f]
  show ?thesis
  proof (cases r)
    case (Inl e)
    with res oid f f1 show ?thesis
      by (auto simp: approve_buffered_memory_def)
  next
    case (Inr x)
    with f1 doc have x: "x = Some doc" by simp
    show ?thesis
    proof (cases "valid_candidate (b_candidate doc)")
      case False
      with res oid f f1 Inr x show ?thesis
        by (auto simp: approve_buffered_memory_def)
    next
      case True
      let ?d = "\<lparr>action = ''keep'', reason = [Lit ''Approved by admin''],
                 merged_with = None, admin_notes = notes\<rparr>"
      obtain r2 db2 where st: "store_memory db1 (b_candidate doc) ?d (content (b_candidate doc)) = (r2, db2)"
        by (cases "store_memory db1 (b_candidate doc) ?d (content (b_candidate doc))")
      show ?thesis
      proof (cases r2)
        case (Inl e)
        with st have st': "store_memory db1 (b_candidate doc) ?d (content (b_candidate doc)) = (Inl e, db2)"
          by simp
        from res oid f Inr x True st' have "ok = False" "db' = db2"
          by (auto simp: approve_buffered_memory_def Let_def)
        with store_memory_Inl [OF st'] f1 show ?thesis by simp
      next
        case (Inr new_id)
        with st have st': "store_memory db1 (b_candidate doc) ?d (content (b_candidate doc)) = (Inr new_id, db2)"
          by simp
        note s2 = store_memory_Inr [OF st']
        obtain r3 db3 where de: "delete_one_buffered db2 oid = (r3, db3)"
          by (cases "delete_one_buffered db2 oid")
        show ?thesis
        proof (cases r3)
          case (Inl e)
          with de have de': "delete_one_buffered db2 oid = (Inl e, db3)" by simp
          from res oid f \<open>r = Inr x\<close> x True st' de' have "ok = False" "db' = db3"
            by (auto simp: approve_buffered_memory_def Let_def)
          with delete_one_buffered_Inl [OF de'] s2 f1 show ?thesis by simp
        next
          case (Inr u)
          with de have de': "delete_one_buffered db2 oid = (Inr u, db3)" by simp
          from res oid f \<open>r = Inr x\<close> x True st' de' have "ok = True"
            "db' = log_audit db3 ''approve'' new_id (Some ?d) (b_candidate doc)"
            by (auto simp: approve_buffered_memory_def Let_def)
          with delete_one_buffered_Inr [OF de'] s2 f1 show ?thesis
            by (simp add: log_audit_colls map_of_filter_out)
        qed
      qed
    qed
  qed
qed


lemma approve_absent:
  assumes "ObjectId memory_id = None \<or>
           (\<exists>oid. ObjectId memory_id = Some oid \<and> map_of (buffered_coll db) oid = None)"
  shows "fst (approve_buffered_memory db memory_id notes) = False \<and>
         stored_coll (snd (approve_buffered_memory db memory_id notes)) = stored_coll db \<and>
         buffered_coll (snd (approve_buffered_memory db memory_id notes)) = buffered_coll db \<and>
         audit_coll (snd (approve_buffered_memory db memory_id notes)) = audit_coll db"
proof (cases "ObjectId memory_id")
  case None
  then show ?thesis by (simp add: approve_buffered_memory_def)
next
  case (Some oid)
  with assms have a: "map_of (buffered_coll db) oid = None" by auto
  obtain r db1 where f: "find_one_buffered db oid = (r, db1)"
    by (cases "find_one_buffered db oid")
  from find_one_buffered_result [OF f] a Some f show ?thesis
    by (cases r) (auto simp: approve_buffered_memory_def)
qed

lemma reject_absent:
  assumes "ObjectId memory_id = None \<or>
           (\<exists>oid. ObjectId memory_id = Some oid \<and> map_of (buffered_coll db) oid = None)"
  shows "fst (reject_buffered_memory db memory_id notes) = False \<and>
         stored_coll (snd (reject_buffered_memory db memory_id notes)) = stored_coll db \<and>
         buffered_coll (snd (reject_buffered_memory db memory_id notes)) = buffered_coll db \<and>
         audit_coll (snd (reject_buffered_memory db memory_id notes)) = audit_coll db"
proof (cases "ObjectId memory_id")
  case None
  then show ?thesis by (simp add: reject_buffered_memory_def)
next
  case (Some oid)
  with assms have a: "map_of (buffered_coll db) oid = None" by auto
  obtain r db1 where f: "find_one_buffered db oid = (r, db1)"
    by (cases "find_one_buffered db oid")
  from find_one_buffered_result [OF f] a Some f show ?thesis
    by (cases r) (auto simp: reject_buffered_memory_def)
qed

lemma reject_success:
  assumes "reject_buffered_memory db memory_id notes = (True, db')"
  shows "\<exists>oid. ObjectId memory_id = Some oid \<and> map_of (buffered_coll db') oid = None"
proof -
  from assms obtain oid where oid: "ObjectId memory_id = Some oid"
    by (cases "ObjectId memory_id") (auto simp: reject_buffered_memory_def)
  obtain r db1 where f: "find_one_buffered db oid = (r, db1)"
    by (cases "find_one_buffered db oid")
  from assms oid f obtain doc where r: "r = Inr (Some doc)"
    and v: "valid_candidate (b_candidate doc)"
    by (cases r) (auto simp: reject_buffered_memory_def split: option.splits if_splits)
  let ?db2 = "log_audit db1 ''reject'' memory_id
     (Some \<lparr>action = ''reject'', reason = [Lit ''Rejected by admin review''],
            merged_with = None, admin_notes = notes\<rparr>) (b_candidate doc)"
  obtain r3 db3 where de: "delete_one_buffered ?db2 oid = (r3, db3)"
    by (cases "delete_one_buffered ?db2 oid")
  from assms oid f r v de obtain u where "r3 = Inr u" "db' = db3"
    by (cases r3) (auto simp: reject_buffered_memory_def Let_def)
  with de have "delete_one_buffered ?db2 oid = (Inr u, db')" by simp
  from delete_one_buffered_Inr [OF this] have "map_of (buffered_coll db') oid = None"
    by blast
  with oid show ?thesis by blast
qed

lemma approve_success:
  assumes "approve_buffered_memory db memory_id notes = (True, db')"
  shows "\<exists>oid. ObjectId memory_id = Some oid \<and> map_of (buffered_coll db') oid = None"
proof -
  from assms obtain oid where oid: "ObjectId memory_id = Some oid"
    by (cases "ObjectId memory_id") (auto simp: approve_buffered_memory_def)
  show ?thesis
  proof (cases "map_of (buffered_coll db) oid")
    case None
    with oid approve_absent [of memory_id db "notes"] assms show ?thesis by auto
  next
    case (Some doc)
    from approve_cases [OF oid Some assms] oid show ?thesis by auto
  qed
qed

lemma resolve_absent:
  assumes "ObjectId memory_id = None \<or>
           (\<exists>oid. ObjectId memory_id = Some oid \<and> map_of (buffered_coll db) oid = None)"
  shows "fst (resolve_buffered a db memory_id notes) = False \<and>
         stored_coll (snd (resolve_buffered a db memory_id notes)) = stored_coll db \<and>
         buffered_coll (snd (resolve_buffered a db memory_id notes)) = buffered_coll db \<and>
         audit_coll (snd (resolve_buffered a db memory_id notes)) = audit_coll db"
  using assms approve_absent [of memory_id db "notes"] reject_absent [of memory_id db "notes"]
  by (cases a) auto

lemma resolve_success_removes:
  assumes "resolve_buffered a db memory_id notes = (True, db')"
  shows "\<exists>oid. ObjectId memory_id = Some oid \<and> map_of (buffered_coll db') oid = None"
  using assms approve_success reject_success by (cases a) auto

lemma resolve_no_faults:
  assumes "faults db = []" "ObjectId memory_id = Some oid"
    "map_of (buffered_coll db) oid = Some doc" "valid_candidate (b_candidate doc)"
    "a = Approve \<longrightarrow> map_of (stored_coll db) None = None"
  shows "fst (resolve_buffered a db memory_id notes) = True \<and>
         faults (snd (resolve_buffered a db memory_id notes)) = []"
  using assms
  by (cases a)
     (simp_all add: approve_buffered_memory_def reject_buffered_memory_def find_one_buffered_def
        store_memory_def insert_one_stored_def delete_one_buffered_def log_audit_def
        db_call_def Let_def)

text \<open>
  Claim C5. Approving a buffered id whose record exists: the buffered collection changes
  only when a StoredMemory with the buffered candidate and its content has been added
  (deletion never precedes persistence); when no StoredMemory was added, the operation
  reports failure and the buffered record, the buffered collection and the audit log are
  as before; a reported success means the memory is stored and the buffered record is
  gone; and when the insert of the StoredMemory raises, the operation reports failure with
  both collections unchanged.
\<close>

theorem approve_persists_before_delete:
  assumes "ObjectId memory_id = Some oid"
    and "map_of (buffered_coll db) oid = Some doc"
    and "approve_buffered_memory db memory_id notes = (ok, db')"
  shows "(buffered_coll db' \<noteq> buffered_coll db \<longrightarrow>
            (\<exists>d. stored_coll db' = (None, d) # stored_coll db \<and>
                 s_candidate d = b_candidate doc \<and>
                 final_content d = content (b_candidate doc))) \<and>
         (stored_coll db' = stored_coll db \<longrightarrow>
            \<not> ok \<and> buffered_coll db' = buffered_coll db \<and>
            map_of (buffered_coll db') oid = Some doc \<and> audit_coll db' = audit_coll db) \<and>
         (ok \<longrightarrow>
            (\<exists>d. stored_coll db' = (None, d) # stored_coll db \<and>
                 s_candidate d = b_candidate doc \<and>
                 final_content d = content (b_candidate doc)) \<and>
            map_of (buffered_coll db') oid = None) \<and>
         (valid_candidate (b_candidate doc) \<and> (\<exists>msg fs. faults db = None # Some msg # fs) \<longrightarrow>
            \<not> ok \<and> stored_coll db' = stored_coll db \<and> buffered_coll db' = buffered_coll db)"
proof -
  note c = approve_cases [OF assms]
  have 1: "buffered_coll db' \<noteq> buffered_coll db \<longrightarrow>
            (\<exists>d. stored_coll db' = (None, d) # stored_coll db \<and>
                 s_candidate d = b_candidate doc \<and>
                 final_content d = content (b_candidate doc))"
    using c by auto
  have 2: "stored_coll db' = stored_coll db \<longrightarrow>
            \<not> ok \<and> buffered_coll db' = buffered_coll db \<and>
            map_of (buffered_coll db') oid = Some doc \<and> audit_coll db' = audit_coll db"
    using c assms(2) by auto
  have 3: "ok \<longrightarrow>
            (\<exists>d. stored_coll db' = (None, d) # stored_coll db \<and>
                 s_candidate d = b_candidate doc \<and>
                 final_content d = content (b_candidate doc)) \<and>
            map_of (buffered_coll db') oid = None"
    using c by auto
  have 4: "valid_candidate (b_candidate doc) \<and> (\<exists>msg fs. faults db = None # Some msg # fs) \<longrightarrow>
            \<not> ok \<and> stored_coll db' = stored_coll db \<and> buffered_coll db' = buffered_coll db"
    using assms
    by (auto simp: approve_buffered_memory_def find_one_buffered_def store_memory_def
        insert_one_stored_def db_call_def Let_def)
  from 1 2 3 4 show ?thesis by blast
qed

theorem approve_persists_before_delete_witness:
  "ObjectId id2 = Some 2 \<and>
   map_of (buffered_coll failing_db) 2 = Some buffered_hike \<and>
   approve_buffered_memory failing_db id2 None = (False, hiking_db) \<and>
   valid_candidate (b_candidate buffered_hike) \<and>
   faults failing_db = None # Some ''down'' # [] \<and>
   stored_coll hiking_db = stored_coll failing_db \<and>
   buffered_coll hiking_db = buffered_coll failing_db \<and>
   map_of (buffered_coll hiking_db) 2 = Some buffered_hike \<and>
   audit_coll hiking_db = audit_coll failing_db"
proof -
  have a: "ObjectId id2 = Some 2"
    by code_simp
  have b: "map_of (buffered_coll failing_db) 2 = Some buffered_hike"
    by code_simp
  have c: "approve_buffered_memory failing_db id2 None = (False, hiking_db)"
    by code_simp
  have v: "valid_candidate (b_candidate buffered_hike)"
    by code_simp
  have f: "faults failing_db = None # Some ''down'' # []"
    by code_simp
  have s: "stored_coll hiking_db = stored_coll failing_db"
    by code_simp
  from approve_persists_before_delete [OF a b c] s have
    "buffered_coll hiking_db = buffered_coll failing_db \<and>
     map_of (buffered_coll hiking_db) 2 = Some buffered_hike \<and>
     audit_coll hiking_db = audit_coll failing_db"
    by blast
  with a b c v f s show ?thesis by blast
qed

text \<open>
  Resolving (approving or rejecting) an id that is no ObjectId, or whose record is not in
  the buffered collection, reports failure and leaves the stored and the buffered
  collection as they are. After a resolve that reported success, a second resolve of the
  same id, of either kind, reports failure, whatever the database does. When the record
  exists, holds a valid candidate, no call of the database raises and, for an approve, no
  stored document has the null \<^verbatim>\<open>_id\<close> yet, the first resolve succeeds and the second one
  fails.
\<close>

theorem resolve_buffered_second_call_fails:
  "((ObjectId memory_id = None \<or>
     (\<exists>oid. ObjectId memory_id = Some oid \<and> map_of (buffered_coll db) oid = None)) \<longrightarrow>
      fst (resolve_buffered a db memory_id notes) = False \<and>
      stored_coll (snd (resolve_buffered a db memory_id notes)) = stored_coll db \<and>
      buffered_coll (snd (resolve_buffered a db memory_id notes)) = buffered_coll db) \<and>
   (fst (resolve_buffered a db memory_id notes) \<longrightarrow>
      \<not> fst (resolve_buffered a2 (snd (resolve_buffered a db memory_id notes)) memory_id notes2)) \<and>
   (faults db = [] \<and> ObjectId memory_id = Some oid \<and>
    map_of (buffered_coll db) oid = Some doc \<and> valid_candidate (b_candidate doc) \<and>
    (a = Approve \<longrightarrow> map_of (stored_coll db) None = None) \<longrightarrow>
      fst (resolve_buffered a db memory_id notes) \<and>
      \<not> fst (resolve_buffered a2 (snd (resolve_buffered a db memory_id notes)) memory_id notes2))"
proof -
  have 2: "fst (resolve_buffered a db memory_id notes) \<longrightarrow>
      \<not> fst (resolve_buffered a2 (snd (resolve_buffered a db memory_id notes)) memory_id notes2)"
  proof
    assume ok: "fst (resolve_buffered a db memory_id notes)"
    obtain db' where r: "resolve_buffered a db memory_id notes = (True, db')"
      using ok by (cases "resolve_buffered a db memory_id notes") auto
    from resolve_success_removes [OF r] have
      "\<exists>oid. ObjectId memory_id = Some oid \<and> map_of (buffered_coll db') oid = None" .
    then have "fst (resolve_buffered a2 db' memory_id notes2) = False"
      using resolve_absent [of memory_id db' a2 notes2] by blast
    with r show "\<not> fst (resolve_buffered a2 (snd (resolve_buffered a db memory_id notes)) memory_id notes2)"
      by simp
  qed
  have 1: "(ObjectId memory_id = None \<or>
     (\<exists>oid. ObjectId memory_id = Some oid \<and> map_of (buffered_coll db) oid = None)) \<longrightarrow>
      fst (resolve_buffered a db memory_id notes) = False \<and>
      stored_coll (snd (resolve_buffered a db memory_id notes)) = stored_coll db \<and>
      buffered_coll (snd (resolve_buffered a db memory_id notes)) = buffered_coll db"
    using resolve_absent [of memory_id db a "notes"] by blast
  have 3: "faults db = [] \<and> ObjectId memory_id = Some oid \<and>
    map_of (buffered_coll db) oid = Some doc \<and> valid_candidate (b_candidate doc) \<and>
    (a = Approve \<longrightarrow> map_of (stored_coll db) None = None) \<longrightarrow>
      fst (resolve_buffered a db memory_id notes) \<and>
      \<not> fst (resolve_buffered a2 (snd (resolve_buffered a db memory_id notes)) memory_id notes2)"
    using resolve_no_faults [of db memory_id oid doc a "notes"] 2 by blast
  from 1 2 3 show ?thesis by blast
qed

theorem resolve_buffered_second_call_fails_witness:
  "ObjectId ''42'' = None \<and>
   fst (resolve_buffered Reject hiking_db ''42'' None) = False \<and>
   faults hiking_db = [] \<and> ObjectId id2 = Some 2 \<and>
   map_of (buffered_coll hiking_db) 2 = Some buffered_hike \<and>
   valid_candidate (b_candidate buffered_hike) \<and>
   map_of (stored_coll hiking_db) None = None \<and>
   fst (resolve_buffered Approve hiking_db id2 None) \<and>
   \<not> fst (resolve_buffered Reject (snd (resolve_buffered Approve hiking_db id2 None)) id2
          (Some ''again''))"
proof -
  have n: "ObjectId ''42'' = None"
    by code_simp
  have f: "faults hiking_db = []"
    by code_simp
  have a: "ObjectId id2 = Some 2"
    by code_simp
  have b: "map_of (buffered_coll hiking_db) 2 = Some buffered_hike"
    by code_simp
  have v: "valid_candidate (b_candidate buffered_hike)"
    by code_simp
  have s: "map_of (stored_coll hiking_db) None = None"
    by code_simp
  from n resolve_buffered_second_call_fails [of "''42''" hiking_db Reject None] have
    1: "fst (resolve_buffered Reject hiking_db ''42'' None) = False"
    by blast
  from f a b v s
    resolve_buffered_second_call_fails [of id2 hiking_db Approve None Reject "Some ''again''" 2
      buffered_hike] have
    2: "fst (resolve_buffered Approve hiking_db id2 None) \<and>
        \<not> fst (resolve_buffered Reject (snd (resolve_buffered Approve hiking_db id2 None)) id2
               (Some ''again''))"
    by blast
  from n f a b v s 1 2 show ?thesis by blast
qed

text \<open>
  Claim C7 at a failing input. The database holds one stored memory under an ObjectId and
  the buffered memory with id 2, and no call of the database raises. A first memory is
  stored by \<open>store_memory\<close>, as the pipeline does for a keep decision: it is written under
  the null \<^verbatim>\<open>_id\<close> and the id returned is the text "None". From then on the insert of
  every \<open>store_memory\<close> raises a duplicate-key error: approving the buffered id reports
  failure, approving it again reports failure again, and the record is still buffered. Two
  resolves of the same buffered id give no success at all.
\<close>

theorem approve_fails_after_first_store:
  "fst (store_memory hiking_db beach_walk keep_beach_walk (content beach_walk)) = Inr ''None'' \<and>
   faults after_first_store_db = [] \<and>
   ObjectId id2 = Some 2 \<and>
   map_of (buffered_coll after_first_store_db) 2 = Some buffered_hike \<and>
   fst (approve_buffered_memory after_first_store_db id2 None) = False \<and>
   fst (approve_buffered_memory
          (snd (approve_buffered_memory after_first_store_db id2 None)) id2 None) = False \<and>
   map_of (buffered_coll (snd (approve_buffered_memory
          (snd (approve_buffered_memory after_first_store_db id2 None)) id2 None))) 2 =
     Some buffered_hike"
  by code_simp

text \<open>
  Claim C6 at a failing input. The approve endpoint receives a review request whose
  \<^verbatim>\<open>modified_content\<close> is set, for the buffered memory with id 2. It passes only the notes
  on; the request succeeds and the memory is stored with the content of the buffered
  candidate, not with the modified one.
\<close>

theorem approve_endpoint_ignores_modified_content:
  "r_modified_content review_request = Some ''I enjoy long hikes.'' \<and>
   fst (approve_endpoint hiking_db id2 review_request) = Memory_approved id2 \<and>
   map (\<lambda>d. final_content (snd d))
     (stored_coll (snd (approve_endpoint hiking_db id2 review_request))) =
     [''long hikes in autumn'', ''hiking on weekends'']"
  by code_simp

subsection \<open>Decider service\<close>



lemma process_decisions_returns:
  "i + length scored \<le> length all_decisions \<Longrightarrow>
   \<exists>st. process_decisions initial_decisions i scored (all_decisions, counts, db) = Inr st"
proof (induction scored arbitrary: i all_decisions counts db)
  case Nil
  show ?case by (cases counts) simp
next
  case (Cons x scored)
  obtain candidate score where x: "x = (candidate, score)" by (cases x)
  obtain d1 c1 db1 where e: "execute_decision db candidate score (all_decisions ! i) counts = (d1, c1, db1)"
    by (cases "execute_decision db candidate score (all_decisions ! i) counts")
  from Cons.prems have i: "i < length all_decisions" by simp
  from Cons.prems have "Suc i + length scored \<le> length (all_decisions[i := d1])" by simp
  from Cons.IH [OF this] x e i show ?case by simp
qed





lemma str_ObjectId_1:
  "str_id (Some (Suc 0)) = ''000000000000000000000001''"
  by code_simp

lemma get_stored_memories_hiking_db:
  "get_stored_memories hiking_db 1000 0 = ([stored_hike], hiking_db)"
  by (simp add: get_stored_memories_def db_call_def hiking_db_def stored_hike_def
      valid_candidate_def hiking_def Let_def str_ObjectId_1)

text \<open>
  Claim C1 at a failing input. One candidate is extracted whose words are those of the
  stored memory. The scorer decides keep, the deduper emits a merge decision for the same
  candidate. The loop reads the decision at the candidate's index of the concatenated
  list, which is the scorer's: the response holds both a keep and a merge decision for the
  one candidate, the stored count is 1, and the duplicate is in the stored collection.
\<close>

theorem extract_and_store_keeps_merged_candidate:
  "fst (extract_and_store default_Config hiking_db [hiking None ''Hiking on weekends'' 0]) =
     Inr \<lparr>resp_candidates = [hiking None ''Hiking on weekends'' 0.59],
          resp_decisions = [evaluate_candidate default_Config (hiking None ''Hiking on weekends'' 0.59) 0.59,
                            merge_into_stored_hike],
          resp_stored_count = 1, resp_buffered_count = 0, resp_rejected_count = 0\<rparr> \<and>
   map (\<lambda>d. final_content (snd d))
     (stored_coll (snd (extract_and_store default_Config hiking_db [hiking None ''Hiking on weekends'' 0]))) =
     [''Hiking on weekends'', ''hiking on weekends''] \<and>
   action (evaluate_candidate default_Config (hiking None ''Hiking on weekends'' 0.59) 0.59) =
     ''keep'' \<and>
   action merge_into_stored_hike = ''merge''"
proof -
  let ?scored = "score_memories default_Config [hiking None ''Hiking on weekends'' 0]"
  let ?initial = "make_decisions default_Config ?scored"
  let ?rest = "case deduplicate_memories default_Config (map fst ?scored) [stored_hike] of
                  Inl e \<Rightarrow> (Inl e, hiking_db)
                | Inr (dedup_decisions, remaining_candidates) \<Rightarrow>
                    (case process_decisions ?initial 0 ?scored
                            (?initial @ dedup_decisions, (0, 0, 0), hiking_db) of
                       Inl (e, db2) \<Rightarrow> (Inl e, db2)
                     | Inr (all_decisions, (sc, bc, rc), db2) \<Rightarrow>
                         (Inr \<lparr>resp_candidates = map fst ?scored,
                               resp_decisions = all_decisions,
                               resp_stored_count = sc, resp_buffered_count = bc,
                               resp_rejected_count = rc\<rparr>, db2))"
  have e: "extract_and_store default_Config hiking_db [hiking None ''Hiking on weekends'' 0] = ?rest"
    unfolding extract_and_store_def
    by (simp only: get_stored_memories_hiking_db Let_def list.simps if_False prod.case)
  have r: "fst ?rest =
     Inr \<lparr>resp_candidates = [hiking None ''Hiking on weekends'' 0.59],
          resp_decisions = [evaluate_candidate default_Config (hiking None ''Hiking on weekends'' 0.59) 0.59,
                            merge_into_stored_hike],
          resp_stored_count = 1, resp_buffered_count = 0, resp_rejected_count = 0\<rparr> \<and>
   map (\<lambda>d. final_content (snd d)) (stored_coll (snd ?rest)) =
     [''Hiking on weekends'', ''hiking on weekends'']"
    by code_simp
  have a: "action (evaluate_candidate default_Config (hiking None ''Hiking on weekends'' 0.59) 0.59) =
     ''keep'' \<and> action merge_into_stored_hike = ''merge''"
    by code_simp
  from r a show ?thesis unfolding e by (intro conjI) (elim conjE, assumption)+
qed

lemma length_score_memories:
  "length (score_memories cfg cs) = length cs"
  by (simp add: score_memories_def)

lemma execute_decision_counts:
  "execute_decision db candidate score decision (sc, bc, rc) = (d1, (sc1, bc1, rc1), db1) \<Longrightarrow>
   sc1 + bc1 + rc1 \<le> Suc (sc + bc + rc) \<and> sc \<le> sc1 \<and> bc \<le> bc1 \<and> rc \<le> rc1"
  by (auto simp: execute_decision_def Let_def split: if_splits prod.splits sum.splits)

lemma process_decisions_counts:
  "process_decisions initial_decisions i scored (all_decisions, (sc, bc, rc), db) =
     Inr (all1, (sc1, bc1, rc1), db1) \<Longrightarrow>
   sc1 + bc1 + rc1 \<le> sc + bc + rc + length scored \<and> length all1 = length all_decisions"
proof (induction scored arbitrary: i all_decisions sc bc rc db)
  case Nil
  then show ?case by simp
next
  case (Cons x scored)
  obtain candidate score where x: "x = (candidate, score)" by (cases x)
  show ?case
  proof (cases "i < length all_decisions")
    case True
    obtain d2 sc2 bc2 rc2 db2 where
      e: "execute_decision db candidate score (all_decisions ! i) (sc, bc, rc) = (d2, (sc2, bc2, rc2), db2)"
      by (cases "execute_decision db candidate score (all_decisions ! i) (sc, bc, rc)") auto
    with Cons.prems x True have
      "process_decisions initial_decisions (Suc i) scored (all_decisions[i := d2], (sc2, bc2, rc2), db2) =
         Inr (all1, (sc1, bc1, rc1), db1)"
      by simp
    from Cons.IH [OF this] execute_decision_counts [OF e] show ?thesis by simp
  next
    case False
    show ?thesis
    proof (cases "i < length initial_decisions")
      case True
      obtain d2 sc2 bc2 rc2 db2 where
        e: "execute_decision db candidate score (initial_decisions ! i) (sc, bc, rc) = (d2, (sc2, bc2, rc2), db2)"
        by (cases "execute_decision db candidate score (initial_decisions ! i) (sc, bc, rc)") auto
      with Cons.prems x True False have
        "process_decisions initial_decisions (Suc i) scored (all_decisions, (sc2, bc2, rc2), db2) =
           Inr (all1, (sc1, bc1, rc1), db1)"
        by simp
      from Cons.IH [OF this] execute_decision_counts [OF e] show ?thesis by simp
    next
      case f2: False
      with Cons.prems x False show ?thesis by simp
    qed
  qed
qed

lemma deduplicate_memories_returns:
  assumes "0 < SIMILARITY_THRESHOLD cfg"
  shows "\<exists>dd rem. deduplicate_memories cfg cs stored = Inr (dd, rem)"
proof -
  from against_stored_loop_total [OF assms]
  obtain ds1 rem1 where "deduplicate_against_stored cfg cs stored = Inr (ds1, rem1)"
    unfolding deduplicate_against_stored_def by blast
  then show ?thesis
    by (simp add: deduplicate_memories_def)
qed

text \<open>
  Partial-failure containment of the whole batch. With a positive similarity threshold
  \<open>extract_and_store\<close> returns a response whatever the database does: the candidates of
  the response are the scored candidates, as many as were extracted; there are at least as
  many decisions; and the three counts together do not exceed the number of candidates.
\<close>

theorem extract_and_store_returns:
  assumes "0 < SIMILARITY_THRESHOLD cfg"
  shows "\<exists>resp. fst (extract_and_store cfg db extracted) = Inr resp \<and>
           resp_candidates resp = map fst (score_memories cfg extracted) \<and>
           length (resp_candidates resp) = length extracted \<and>
           length extracted \<le> length (resp_decisions resp) \<and>
           resp_stored_count resp + resp_buffered_count resp + resp_rejected_count resp
             \<le> length extracted"
proof (cases "extracted = []")
  case True
  then show ?thesis
    by (simp add: extract_and_store_def score_memories_def)
next
  case False
  let ?scored = "score_memories cfg extracted"
  let ?initial = "make_decisions cfg ?scored"
  obtain stored db1 where g: "get_stored_memories db 1000 0 = (stored, db1)"
    by (cases "get_stored_memories db 1000 0")
  from deduplicate_memories_returns [OF assms]
  obtain dd rem where d: "deduplicate_memories cfg (map fst ?scored) stored = Inr (dd, rem)"
    by blast
  have l: "length ?initial = length extracted"
    by (simp add: make_decisions_def length_score_memories)
  then have "0 + length ?scored \<le> length (?initial @ dd)"
    by (simp add: length_score_memories)
  from process_decisions_returns [OF this]
  obtain st where p: "process_decisions ?initial 0 ?scored (?initial @ dd, (0, 0, 0), db1) = Inr st"
    by blast
  obtain all1 sc1 bc1 rc1 db2 where st: "st = (all1, (sc1, bc1, rc1), db2)"
    by (cases st) auto
  from process_decisions_counts [OF p [unfolded st]] l
  have c: "sc1 + bc1 + rc1 \<le> length extracted" "length all1 = length extracted + length dd"
    by (simp_all add: length_score_memories)
  from False g d p st c show ?thesis
    by (simp add: extract_and_store_def Let_def length_score_memories)
qed

theorem extract_and_store_returns_witness:
  "0 < SIMILARITY_THRESHOLD default_Config \<and>
   (\<exists>resp. fst (extract_and_store default_Config all_down_db [beach_walk]) = Inr resp \<and>
      resp_candidates resp = map fst (score_memories default_Config [beach_walk]) \<and>
      length (resp_candidates resp) = length [beach_walk] \<and>
      length [beach_walk] \<le> length (resp_decisions resp) \<and>
      resp_stored_count resp + resp_buffered_count resp + resp_rejected_count resp
        \<le> length [beach_walk])"
proof -
  have t: "0 < SIMILARITY_THRESHOLD default_Config"
    by (simp add: default_Config_def)
  from t extract_and_store_returns [OF t, of all_down_db "[beach_walk]"]
  show ?thesis by blast
qed

subsection \<open>The within-batch pass on a sorted batch\<close>

lemma compare_pair_sorted:
  assumes "salience_score c2 \<le> salience_score c1"
  shows "compare_pair cfg i c1 j c2 (ds, P) =
     (if j \<notin> P \<and> similar cfg c1 c2 then (ds @ [merge_of c1 c2], insert j P) else (ds, P))"
  using assms by (simp add: compare_pair_def similar_def merge_of_def Let_def)

lemma filter_enumerate_insert:
  "filter (\<lambda>(k, c). k \<notin> insert j P \<and> Q c) (enumerate (Suc j) rest) =
   filter (\<lambda>(k, c). k \<notin> P \<and> Q c) (enumerate (Suc j) rest)"
  by (rule filter_cong) (auto simp: in_set_enumerate_eq)

lemma inner_loop_sorted:
  assumes "\<forall>c \<in> set rest. salience_score c \<le> salience_score c1"
  shows "inner_loop cfg i c1 j rest (ds, P) =
     (ds @ map (\<lambda>(k, c). merge_of c1 c)
            (filter (\<lambda>(k, c). k \<notin> P \<and> similar cfg c1 c) (enumerate j rest)),
      P \<union> fst ` set (filter (\<lambda>(k, c). k \<notin> P \<and> similar cfg c1 c) (enumerate j rest)))"
  using assms
proof (induction rest arbitrary: j ds P)
  case Nil
  then show ?case by simp
next
  case (Cons c2 rest)
  have s: "salience_score c2 \<le> salience_score c1" using Cons.prems by simp
  have r: "\<forall>c \<in> set rest. salience_score c \<le> salience_score c1" using Cons.prems by simp
  show ?case
  proof (cases "j \<notin> P \<and> similar cfg c1 c2")
    case True
    have "inner_loop cfg i c1 j (c2 # rest) (ds, P) =
          inner_loop cfg i c1 (Suc j) rest (ds @ [merge_of c1 c2], insert j P)"
      using True by (simp add: compare_pair_sorted [OF s])
    also have "\<dots> =
      ((ds @ [merge_of c1 c2]) @ map (\<lambda>(k, c). merge_of c1 c)
            (filter (\<lambda>(k, c). k \<notin> P \<and> similar cfg c1 c) (enumerate (Suc j) rest)),
       insert j P \<union>
         fst ` set (filter (\<lambda>(k, c). k \<notin> P \<and> similar cfg c1 c) (enumerate (Suc j) rest)))"
      unfolding Cons.IH [OF r] filter_enumerate_insert ..
    finally show ?thesis
      using True by simp
  next
    case False
    have "inner_loop cfg i c1 j (c2 # rest) (ds, P) = inner_loop cfg i c1 (Suc j) rest (ds, P)"
      using False by (auto simp add: compare_pair_sorted [OF s])
    also note Cons.IH [OF r, of "Suc j" ds P]
    finally show ?thesis
      using False by auto
  qed
qed

lemma enumerate_drop_mem:
  assumes "drop (Suc i) cs = rest"
  shows "(k, c) \<in> set (enumerate (Suc i) rest) \<longleftrightarrow> Suc i \<le> k \<and> k < length cs \<and> cs ! k = c"
proof -
  have "length rest = length cs - Suc i" using assms by auto
  moreover have "\<And>k. Suc i \<le> k \<Longrightarrow> k < length cs \<Longrightarrow> rest ! (k - Suc i) = cs ! k"
    using assms by auto
  ultimately show ?thesis
    by (auto simp: in_set_enumerate_eq)
qed


lemma dedup_inv_parts:
  assumes "dedup_inv cfg cs i (ds, P)"
  shows "length ds = card P"
    and "\<forall>j\<in>P. j < length cs \<and>
           (\<exists>k<j. k < i \<and> k \<notin> P \<and> similar cfg (cs ! k) (cs ! j) \<and>
                  merge_of (cs ! k) (cs ! j) \<in> set ds \<and>
                  (\<forall>k'<k. k' \<notin> P \<longrightarrow> \<not> similar cfg (cs ! k') (cs ! j)))"
    and "\<forall>k<i. \<forall>j<length cs. k < j \<and> k \<notin> P \<and> j \<notin> P \<longrightarrow> \<not> similar cfg (cs ! k) (cs ! j)"
    and "\<forall>d\<in>set ds. action d = ''merge'' \<and>
           (\<exists>k j. k < j \<and> j < length cs \<and> k < i \<and> k \<notin> P \<and> j \<in> P \<and>
                  d = merge_of (cs ! k) (cs ! j))"
     apply (rule conjunct1 [OF assms [unfolded dedup_inv_def prod.case]])
    apply (rule conjunct1 [OF conjunct2 [OF assms [unfolded dedup_inv_def prod.case]]])
   apply (rule conjunct1 [OF conjunct2 [OF conjunct2 [OF assms [unfolded dedup_inv_def prod.case]]]])
  apply (rule conjunct2 [OF conjunct2 [OF conjunct2 [OF assms [unfolded dedup_inv_def prod.case]]]])
  done

lemma dedup_inv_intro:
  assumes "length ds = card P"
    and "\<forall>j\<in>P. j < length cs \<and>
           (\<exists>k<j. k < i \<and> k \<notin> P \<and> similar cfg (cs ! k) (cs ! j) \<and>
                  merge_of (cs ! k) (cs ! j) \<in> set ds \<and>
                  (\<forall>k'<k. k' \<notin> P \<longrightarrow> \<not> similar cfg (cs ! k') (cs ! j)))"
    and "\<forall>k<i. \<forall>j<length cs. k < j \<and> k \<notin> P \<and> j \<notin> P \<longrightarrow> \<not> similar cfg (cs ! k) (cs ! j)"
    and "\<forall>d\<in>set ds. action d = ''merge'' \<and>
           (\<exists>k j. k < j \<and> j < length cs \<and> k < i \<and> k \<notin> P \<and> j \<in> P \<and>
                  d = merge_of (cs ! k) (cs ! j))"
  shows "dedup_inv cfg cs i (ds, P)"
  unfolding dedup_inv_def prod.case
  by (rule conjI [OF assms(1) conjI [OF assms(2) conjI [OF assms(3) assms(4)]]])

lemma dedup_inv_skip:
  assumes inv: "dedup_inv cfg cs i (ds, P)" and i: "i \<in> P"
  shows "dedup_inv cfg cs (Suc i) (ds, P)"
proof (rule dedup_inv_intro)
  note I = dedup_inv_parts [OF inv]
  show "length ds = card P" by (rule I(1))
  show "\<forall>j\<in>P. j < length cs \<and>
           (\<exists>k<j. k < Suc i \<and> k \<notin> P \<and> similar cfg (cs ! k) (cs ! j) \<and>
                  merge_of (cs ! k) (cs ! j) \<in> set ds \<and>
                  (\<forall>k'<k. k' \<notin> P \<longrightarrow> \<not> similar cfg (cs ! k') (cs ! j)))"
  proof
    fix j assume "j \<in> P"
    with I(2) obtain k where "j < length cs" "k < j" "k < i" "k \<notin> P"
      "similar cfg (cs ! k) (cs ! j)" "merge_of (cs ! k) (cs ! j) \<in> set ds"
      "\<forall>k'<k. k' \<notin> P \<longrightarrow> \<not> similar cfg (cs ! k') (cs ! j)"
      by blast
    then show "j < length cs \<and>
           (\<exists>k<j. k < Suc i \<and> k \<notin> P \<and> similar cfg (cs ! k) (cs ! j) \<and>
                  merge_of (cs ! k) (cs ! j) \<in> set ds \<and>
                  (\<forall>k'<k. k' \<notin> P \<longrightarrow> \<not> similar cfg (cs ! k') (cs ! j)))"
      by (intro conjI exI [of _ k]) simp_all
  qed
  show "\<forall>k<Suc i. \<forall>j<length cs. k < j \<and> k \<notin> P \<and> j \<notin> P \<longrightarrow>
          \<not> similar cfg (cs ! k) (cs ! j)"
  proof (intro allI impI)
    fix k j assume k: "k < Suc i" and j: "j < length cs" and h: "k < j \<and> k \<notin> P \<and> j \<notin> P"
    with i have "k \<noteq> i" by blast
    with k have "k < i" by simp
    with I(3) j h show "\<not> similar cfg (cs ! k) (cs ! j)" by blast
  qed
  show "\<forall>d\<in>set ds. action d = ''merge'' \<and>
           (\<exists>k j. k < j \<and> j < length cs \<and> k < Suc i \<and> k \<notin> P \<and> j \<in> P \<and>
                  d = merge_of (cs ! k) (cs ! j))"
  proof
    fix d assume "d \<in> set ds"
    with I(4) obtain k j where "action d = ''merge''" "k < j" "j < length cs" "k < i"
      "k \<notin> P" "j \<in> P" "d = merge_of (cs ! k) (cs ! j)"
      by blast
    then show "action d = ''merge'' \<and>
           (\<exists>k j. k < j \<and> j < length cs \<and> k < Suc i \<and> k \<notin> P \<and> j \<in> P \<and>
                  d = merge_of (cs ! k) (cs ! j))"
      by (intro conjI exI [of _ k] exI [of _ j]) simp_all
  qed
qed

lemma dedup_inv_step:
  assumes inv: "dedup_inv cfg cs i (ds, P)"
    and i: "i < length cs" "i \<notin> P"
    and rest: "drop (Suc i) cs = rest"
    and st: "st = (ds @ map (\<lambda>(k, c). merge_of (cs ! i) c)
                     (filter (\<lambda>(k, c). k \<notin> P \<and> similar cfg (cs ! i) c) (enumerate (Suc i) rest)),
                   P \<union> fst ` set (filter (\<lambda>(k, c). k \<notin> P \<and> similar cfg (cs ! i) c)
                                    (enumerate (Suc i) rest)))"
  shows "dedup_inv cfg cs (Suc i) st"
proof -
  define F where "F = filter (\<lambda>(k, c). k \<notin> P \<and> similar cfg (cs ! i) c) (enumerate (Suc i) rest)"
  define M where "M = fst ` set F"
  define ds' where "ds' = ds @ map (\<lambda>(k, c). merge_of (cs ! i) c) F"
  have st': "st = (ds', P \<union> M)"
    unfolding st ds'_def M_def F_def ..
  have memF: "\<And>k c. (k, c) \<in> set F \<longleftrightarrow>
      Suc i \<le> k \<and> k < length cs \<and> cs ! k = c \<and> k \<notin> P \<and> similar cfg (cs ! i) c"
    unfolding F_def by (auto simp: enumerate_drop_mem [OF rest])
  have M: "M = {k. Suc i \<le> k \<and> k < length cs \<and> k \<notin> P \<and> similar cfg (cs ! i) (cs ! k)}"
  proof (intro set_eqI iffI)
    fix k assume "k \<in> M"
    then obtain c where "(k, c) \<in> set F" unfolding M_def by auto
    then show "k \<in> {k. Suc i \<le> k \<and> k < length cs \<and> k \<notin> P \<and> similar cfg (cs ! i) (cs ! k)}"
      by (auto simp: memF)
  next
    fix k assume "k \<in> {k. Suc i \<le> k \<and> k < length cs \<and> k \<notin> P \<and> similar cfg (cs ! i) (cs ! k)}"
    then have "(k, cs ! k) \<in> set F" by (simp add: memF)
    then have "fst (k, cs ! k) \<in> fst ` set F" by (rule imageI)
    then show "k \<in> M" unfolding M_def by simp
  qed
  have inM: "\<And>k. k \<in> M \<longleftrightarrow> Suc i \<le> k \<and> k < length cs \<and> k \<notin> P \<and> similar cfg (cs ! i) (cs ! k)"
    unfolding M by simp
  have new_ds: "\<And>j. j \<in> M \<Longrightarrow> merge_of (cs ! i) (cs ! j) \<in> set ds'"
  proof -
    fix j assume "j \<in> M"
    then have "(j, cs ! j) \<in> set F" by (simp add: inM memF)
    then have "(\<lambda>(k, c). merge_of (cs ! i) c) (j, cs ! j) \<in> (\<lambda>(k, c). merge_of (cs ! i) c) ` set F"
      by (rule imageI)
    then show "merge_of (cs ! i) (cs ! j) \<in> set ds'"
      unfolding ds'_def by simp
  qed
  have set_ds': "\<And>d. d \<in> set ds' \<Longrightarrow> d \<in> set ds \<or> (\<exists>j\<in>M. d = merge_of (cs ! i) (cs ! j))"
  proof -
    fix d assume "d \<in> set ds'"
    then have "d \<in> set ds \<or> d \<in> (\<lambda>(k, c). merge_of (cs ! i) c) ` set F"
      unfolding ds'_def by simp
    then show "d \<in> set ds \<or> (\<exists>j\<in>M. d = merge_of (cs ! i) (cs ! j))"
    proof
      assume "d \<in> set ds" then show ?thesis ..
    next
      assume "d \<in> (\<lambda>(k, c). merge_of (cs ! i) c) ` set F"
      then obtain j c where jc: "(j, c) \<in> set F" and d: "d = merge_of (cs ! i) c" by auto
      from jc have "cs ! j = c" "j \<in> M" by (simp_all add: memF inM)
      with d show ?thesis by blast
    qed
  qed
  note I = dedup_inv_parts [OF inv]
  have finP: "finite P"
  proof (rule finite_subset)
    show "P \<subseteq> {..<length cs}" using I(2) by auto
  qed simp
  have dF: "distinct (map fst F)"
  proof -
    have "distinct (map fst (enumerate (Suc i) rest))" by simp
    then show ?thesis unfolding F_def by (rule distinct_map_filter)
  qed
  have cardM: "card M = length F"
  proof -
    have "M = set (map fst F)" unfolding M_def by simp
    then have "card M = card (set (map fst F))" by simp
    also have "\<dots> = length (map fst F)" using dF by (rule distinct_card)
    finally show ?thesis by simp
  qed
  have disj: "P \<inter> M = {}" unfolding M by auto
  have finM: "finite M" unfolding M_def by simp
  have iPM: "i \<notin> P \<union> M" using i(2) by (simp add: inM)
  have below: "\<And>k. k < i \<Longrightarrow> k \<notin> M" by (simp add: inM)
  show ?thesis
    unfolding st'
  proof (rule dedup_inv_intro)
    show "length ds' = card (P \<union> M)"
      using card_Un_disjoint [OF finP finM disj] I(1) cardM unfolding ds'_def by simp
    show "\<forall>j\<in>P \<union> M. j < length cs \<and>
           (\<exists>k<j. k < Suc i \<and> k \<notin> P \<union> M \<and> similar cfg (cs ! k) (cs ! j) \<and>
                  merge_of (cs ! k) (cs ! j) \<in> set ds' \<and>
                  (\<forall>k'<k. k' \<notin> P \<union> M \<longrightarrow> \<not> similar cfg (cs ! k') (cs ! j)))"
    proof
      fix j assume "j \<in> P \<union> M"
      then show "j < length cs \<and>
           (\<exists>k<j. k < Suc i \<and> k \<notin> P \<union> M \<and> similar cfg (cs ! k) (cs ! j) \<and>
                  merge_of (cs ! k) (cs ! j) \<in> set ds' \<and>
                  (\<forall>k'<k. k' \<notin> P \<union> M \<longrightarrow> \<not> similar cfg (cs ! k') (cs ! j)))"
      proof
        assume "j \<in> P"
        with I(2) obtain k where k: "j < length cs" "k < j" "k < i" "k \<notin> P"
          "similar cfg (cs ! k) (cs ! j)" "merge_of (cs ! k) (cs ! j) \<in> set ds"
          and first: "\<forall>k'<k. k' \<notin> P \<longrightarrow> \<not> similar cfg (cs ! k') (cs ! j)"
          by blast
        have "k \<notin> P \<union> M" using k(3,4) below by simp
        moreover have "merge_of (cs ! k) (cs ! j) \<in> set ds'"
          using k(6) unfolding ds'_def by simp
        moreover have "\<forall>k'<k. k' \<notin> P \<union> M \<longrightarrow> \<not> similar cfg (cs ! k') (cs ! j)"
          using first by simp
        ultimately show ?thesis
          using k by (intro conjI exI [of _ k]) simp_all
      next
        assume jM: "j \<in> M"
        then have j: "Suc i \<le> j" "j < length cs" "j \<notin> P" "similar cfg (cs ! i) (cs ! j)"
          by (simp_all add: inM)
        have "\<forall>k'<i. k' \<notin> P \<union> M \<longrightarrow> \<not> similar cfg (cs ! k') (cs ! j)"
        proof (intro allI impI)
          fix k' assume "k' < i" "k' \<notin> P \<union> M"
          with I(3) j show "\<not> similar cfg (cs ! k') (cs ! j)" by auto
        qed
        with j iPM new_ds [OF jM] show ?thesis
          by (intro conjI exI [of _ i]) simp_all
      qed
    qed
    show "\<forall>k<Suc i. \<forall>j<length cs. k < j \<and> k \<notin> P \<union> M \<and> j \<notin> P \<union> M \<longrightarrow>
              \<not> similar cfg (cs ! k) (cs ! j)"
    proof (intro allI impI)
      fix k j assume k: "k < Suc i" and j: "j < length cs"
        and h: "k < j \<and> k \<notin> P \<union> M \<and> j \<notin> P \<union> M"
      show "\<not> similar cfg (cs ! k) (cs ! j)"
      proof (cases "k = i")
        case True
        with h j show ?thesis by (auto simp: inM)
      next
        case False
        with k have "k < i" by simp
        with I(3) j h show ?thesis by auto
      qed
    qed
    show "\<forall>d\<in>set ds'. action d = ''merge'' \<and>
           (\<exists>k j. k < j \<and> j < length cs \<and> k < Suc i \<and> k \<notin> P \<union> M \<and> j \<in> P \<union> M \<and>
                  d = merge_of (cs ! k) (cs ! j))"
    proof
      fix d assume "d \<in> set ds'"
      from set_ds' [OF this]
      show "action d = ''merge'' \<and>
           (\<exists>k j. k < j \<and> j < length cs \<and> k < Suc i \<and> k \<notin> P \<union> M \<and> j \<in> P \<union> M \<and>
                  d = merge_of (cs ! k) (cs ! j))"
      proof
        assume "d \<in> set ds"
        with I(4) obtain k j where kj: "action d = ''merge''" "k < j" "j < length cs" "k < i"
          "k \<notin> P" "j \<in> P" "d = merge_of (cs ! k) (cs ! j)"
          by blast
        have "k \<notin> P \<union> M" using kj(4,5) below by simp
        with kj show ?thesis
          by (intro conjI exI [of _ k] exI [of _ j]) simp_all
      next
        assume "\<exists>j\<in>M. d = merge_of (cs ! i) (cs ! j)"
        then obtain j where jM: "j \<in> M" and d: "d = merge_of (cs ! i) (cs ! j)" by blast
        from jM have j: "Suc i \<le> j" "j < length cs" by (simp_all add: inM)
        have a: "action d = ''merge''" by (simp add: d merge_of_def)
        from a j iPM jM d show ?thesis
          by (intro conjI exI [of _ i] exI [of _ j]) simp_all
      qed
    qed
  qed
qed

lemma outer_loop_inv:
  assumes "sorted_wrt (\<lambda>a b. salience_score b \<le> salience_score a) rest"
    and "drop i cs = rest"
    and "dedup_inv cfg cs i st"
  shows "dedup_inv cfg cs (i + length rest) (outer_loop cfg i rest st)"
  using assms
proof (induction rest arbitrary: i st)
  case Nil
  then show ?case by simp
next
  case (Cons c1 rest)
  from Cons.prems(2) have i: "i < length cs"
    by (metis drop_eq_Nil list.distinct(1) not_le)
  from Cons.prems(2) i have c1: "cs ! i = c1" and dr: "drop (Suc i) cs = rest"
    by (metis Cons_nth_drop_Suc list.inject)+
  from Cons.prems(1) have le: "\<forall>c \<in> set rest. salience_score c \<le> salience_score c1"
    and so: "sorted_wrt (\<lambda>a b. salience_score b \<le> salience_score a) rest"
    by simp_all
  obtain ds P where st: "st = (ds, P)" by (cases st)
  let ?st' = "if i \<in> snd st then st else inner_loop cfg i c1 (Suc i) rest st"
  have "dedup_inv cfg cs (Suc i) ?st'"
  proof (cases "i \<in> P")
    case True
    with Cons.prems(3) st show ?thesis
      by (simp add: dedup_inv_skip)
  next
    case False
    have "dedup_inv cfg cs (Suc i) (inner_loop cfg i c1 (Suc i) rest (ds, P))"
      unfolding inner_loop_sorted [OF le]
      using Cons.prems(3) [unfolded st] i False dr
      by (rule dedup_inv_step) (simp add: c1)
    with False st show ?thesis by simp
  qed
  from Cons.IH [OF so dr this] show ?case by simp
qed

lemma outer_loop_sorted:
  assumes so: "sorted_wrt (\<lambda>a b. salience_score b \<le> salience_score a) cs"
    and o: "outer_loop cfg 0 cs ([], {}) = (ds, P)"
  shows "(\<forall>k j. k < j \<and> j < length cs \<and> k \<notin> P \<and> similar cfg (cs ! k) (cs ! j) \<longrightarrow> j \<in> P) \<and>
         (\<forall>j\<in>P. j < length cs \<and>
            (\<exists>k<j. k \<notin> P \<and> similar cfg (cs ! k) (cs ! j) \<and>
                   salience_score (cs ! j) \<le> salience_score (cs ! k) \<and>
                   merge_of (cs ! k) (cs ! j) \<in> set ds \<and>
                   (\<forall>k'<k. k' \<notin> P \<longrightarrow> \<not> similar cfg (cs ! k') (cs ! j)))) \<and>
         (\<forall>d\<in>set ds. action d = ''merge'' \<and>
            (\<exists>k j. k < j \<and> j < length cs \<and> k \<notin> P \<and> j \<in> P \<and>
                   d = merge_of (cs ! k) (cs ! j) \<and> merged_with d = c_id (cs ! k))) \<and>
         length ds = card P"
proof -
  have "dedup_inv cfg cs 0 ([], {})"
    by (simp add: dedup_inv_def)
  with so have "dedup_inv cfg cs (0 + length cs) (outer_loop cfg 0 cs ([], {}))"
    by (intro outer_loop_inv) simp_all
  then have inv: "dedup_inv cfg cs (length cs) (ds, P)"
    by (simp add: o)
  note I = dedup_inv_parts [OF inv]
  have sal: "\<And>k j. k < j \<Longrightarrow> j < length cs \<Longrightarrow>
      salience_score (cs ! j) \<le> salience_score (cs ! k)"
    using so by (simp add: sorted_wrt_iff_nth_less)
  have 1: "\<forall>k j. k < j \<and> j < length cs \<and> k \<notin> P \<and> similar cfg (cs ! k) (cs ! j) \<longrightarrow> j \<in> P"
  proof (intro allI impI)
    fix k j assume h: "k < j \<and> j < length cs \<and> k \<notin> P \<and> similar cfg (cs ! k) (cs ! j)"
    then have "k < length cs" by simp
    with I(3) h show "j \<in> P" by blast
  qed
  have 2: "\<forall>j\<in>P. j < length cs \<and>
            (\<exists>k<j. k \<notin> P \<and> similar cfg (cs ! k) (cs ! j) \<and>
                   salience_score (cs ! j) \<le> salience_score (cs ! k) \<and>
                   merge_of (cs ! k) (cs ! j) \<in> set ds \<and>
                   (\<forall>k'<k. k' \<notin> P \<longrightarrow> \<not> similar cfg (cs ! k') (cs ! j)))"
  proof
    fix j assume "j \<in> P"
    with I(2) obtain k where k: "j < length cs" "k < j" "k \<notin> P"
      "similar cfg (cs ! k) (cs ! j)" "merge_of (cs ! k) (cs ! j) \<in> set ds"
      "\<forall>k'<k. k' \<notin> P \<longrightarrow> \<not> similar cfg (cs ! k') (cs ! j)"
      by blast
    with sal [of k j] show "j < length cs \<and>
            (\<exists>k<j. k \<notin> P \<and> similar cfg (cs ! k) (cs ! j) \<and>
                   salience_score (cs ! j) \<le> salience_score (cs ! k) \<and>
                   merge_of (cs ! k) (cs ! j) \<in> set ds \<and>
                   (\<forall>k'<k. k' \<notin> P \<longrightarrow> \<not> similar cfg (cs ! k') (cs ! j)))"
      by (intro conjI exI [of _ k]) simp_all
  qed
  have 3: "\<forall>d\<in>set ds. action d = ''merge'' \<and>
            (\<exists>k j. k < j \<and> j < length cs \<and> k \<notin> P \<and> j \<in> P \<and>
                   d = merge_of (cs ! k) (cs ! j) \<and> merged_with d = c_id (cs ! k))"
  proof
    fix d assume "d \<in> set ds"
    with I(4) obtain k j where kj: "action d = ''merge''" "k < j" "j < length cs"
      "k \<notin> P" "j \<in> P" "d = merge_of (cs ! k) (cs ! j)"
      by blast
    then have "merged_with d = c_id (cs ! k)" by (simp add: merge_of_def)
    with kj show "action d = ''merge'' \<and>
            (\<exists>k j. k < j \<and> j < length cs \<and> k \<notin> P \<and> j \<in> P \<and>
                   d = merge_of (cs ! k) (cs ! j) \<and> merged_with d = c_id (cs ! k))"
      by (intro conjI exI [of _ k] exI [of _ j]) simp_all
  qed
  from 1 2 3 I(1) show ?thesis by (intro conjI)
qed

text \<open>
  The within-batch pass on a batch sorted by salience, highest first. Every candidate it
  marks gets exactly one decision; every decision is a merge whose \<open>merged_with\<close> is the id
  of a candidate that is not marked; every marked candidate is similar to an earlier
  candidate that is not marked; and no two candidates that are left unmarked are similar.
\<close>

theorem deduplicate_candidates_sorted:
  assumes "sorted_wrt (\<lambda>a b. salience_score b \<le> salience_score a) cs"
    and "P = snd (outer_loop cfg 0 cs ([], {}))"
  shows "length (deduplicate_candidates cfg cs) = card P \<and>
         (\<forall>d\<in>set (deduplicate_candidates cfg cs). action d = ''merge'' \<and>
            (\<exists>k<length cs. k \<notin> P \<and> merged_with d = c_id (cs ! k))) \<and>
         (\<forall>j\<in>P. j < length cs \<and> (\<exists>k<j. k \<notin> P \<and> similar cfg (cs ! k) (cs ! j))) \<and>
         (\<forall>k j. k < j \<and> j < length cs \<and> k \<notin> P \<and> j \<notin> P \<longrightarrow> \<not> similar cfg (cs ! k) (cs ! j))"
proof -
  obtain ds where o: "outer_loop cfg 0 cs ([], {}) = (ds, P)"
    using assms(2) by (cases "outer_loop cfg 0 cs ([], {})") simp
  have d: "deduplicate_candidates cfg cs = ds"
    by (simp add: deduplicate_candidates_def o)
  note S = outer_loop_sorted [OF assms(1) o]
  have S1: "\<forall>k j. k < j \<and> j < length cs \<and> k \<notin> P \<and> similar cfg (cs ! k) (cs ! j) \<longrightarrow> j \<in> P"
    by (rule conjunct1 [OF S])
  have S2: "\<forall>j\<in>P. j < length cs \<and>
            (\<exists>k<j. k \<notin> P \<and> similar cfg (cs ! k) (cs ! j) \<and>
                   salience_score (cs ! j) \<le> salience_score (cs ! k) \<and>
                   merge_of (cs ! k) (cs ! j) \<in> set ds \<and>
                   (\<forall>k'<k. k' \<notin> P \<longrightarrow> \<not> similar cfg (cs ! k') (cs ! j)))"
    by (rule conjunct1 [OF conjunct2 [OF S]])
  have S3: "\<forall>d\<in>set ds. action d = ''merge'' \<and>
            (\<exists>k j. k < j \<and> j < length cs \<and> k \<notin> P \<and> j \<in> P \<and>
                   d = merge_of (cs ! k) (cs ! j) \<and> merged_with d = c_id (cs ! k))"
    by (rule conjunct1 [OF conjunct2 [OF conjunct2 [OF S]]])
  have 1: "length ds = card P"
    by (rule conjunct2 [OF conjunct2 [OF conjunct2 [OF S]]])
  have 2: "\<forall>d\<in>set ds. action d = ''merge'' \<and>
      (\<exists>k<length cs. k \<notin> P \<and> merged_with d = c_id (cs ! k))"
  proof
    fix d assume "d \<in> set ds"
    with S3 obtain k j where kj: "action d = ''merge''" "k < j" "j < length cs" "k \<notin> P"
      "merged_with d = c_id (cs ! k)"
      by blast
    then have "k < length cs" by simp
    with kj show "action d = ''merge'' \<and>
      (\<exists>k<length cs. k \<notin> P \<and> merged_with d = c_id (cs ! k))"
      by (intro conjI exI [of _ k]) simp_all
  qed
  have 3: "\<forall>j\<in>P. j < length cs \<and> (\<exists>k<j. k \<notin> P \<and> similar cfg (cs ! k) (cs ! j))"
  proof
    fix j assume "j \<in> P"
    with S2 obtain k where "j < length cs" "k < j" "k \<notin> P" "similar cfg (cs ! k) (cs ! j)"
      by blast
    then show "j < length cs \<and> (\<exists>k<j. k \<notin> P \<and> similar cfg (cs ! k) (cs ! j))"
      by (intro conjI exI [of _ k]) simp_all
  qed
  have 4: "\<forall>k j. k < j \<and> j < length cs \<and> k \<notin> P \<and> j \<notin> P \<longrightarrow>
      \<not> similar cfg (cs ! k) (cs ! j)"
    using S1 by blast
  from 1 2 3 4 show ?thesis unfolding d by (intro conjI)
qed

theorem deduplicate_candidates_sorted_witness:
  "sorted_wrt (\<lambda>a b. salience_score b \<le> salience_score a) hike_twice \<and>
   {1} = snd (outer_loop default_Config 0 hike_twice ([], {})) \<and>
   length (deduplicate_candidates default_Config hike_twice) = card {1 :: nat}"
proof -
  have s: "sorted_wrt (\<lambda>a b. salience_score b \<le> salience_score a) hike_twice"
    by code_simp
  have p: "{1} = snd (outer_loop default_Config 0 hike_twice ([], {}))"
    by code_simp
  from deduplicate_candidates_sorted [OF s p] s p show ?thesis
    by blast
qed

lemma score_memories_pairs:
  "(c, s) \<in> set (score_memories cfg cs) \<Longrightarrow> salience_score c = s"
  by (auto simp: score_memories_def Let_def)

lemma score_memories_sorted:
  "sorted_wrt (\<lambda>a b. salience_score b \<le> salience_score a) (map fst (score_memories cfg cs))"
proof -
  let ?ys = "score_memories cfg cs"
  have "sorted (map (\<lambda>x. - snd x) ?ys)"
    unfolding score_memories_def by (rule sorted_sort_key)
  then have "sorted_wrt (\<lambda>a b. - snd a \<le> - snd b) ?ys"
    by (simp add: sorted_wrt_map)
  then have "sorted_wrt (\<lambda>a b. salience_score (fst b) \<le> salience_score (fst a)) ?ys"
  proof (rule sorted_wrt_mono_rel [rotated])
    fix a b assume "a \<in> set ?ys" "b \<in> set ?ys" "- snd a \<le> - snd b"
    then show "salience_score (fst b) \<le> salience_score (fst a)"
      using score_memories_pairs [of "fst a" "snd a" cfg cs]
        score_memories_pairs [of "fst b" "snd b" cfg cs] by simp
  qed
  then show ?thesis
    by (simp add: sorted_wrt_map)
qed

lemma residual_sorted:
  assumes "deduplicate_against_stored cfg (map fst (score_memories cfg extracted)) stored =
             Inr (ds, residual)"
  shows "sorted_wrt (\<lambda>a b. salience_score b \<le> salience_score a) residual"
proof -
  from assms have
    "residual = [] @ filter (\<lambda>c. \<not> merges_with_stored cfg stored c)
                      (map fst (score_memories cfg extracted)) \<and>
     length ds = length ([] :: MemoryDecision list) +
       length (filter (merges_with_stored cfg stored) (map fst (score_memories cfg extracted)))"
    unfolding deduplicate_against_stored_def by (rule against_stored_loop_residual)
  then have "residual = filter (\<lambda>c. \<not> merges_with_stored cfg stored c)
                      (map fst (score_memories cfg extracted))"
    by simp
  with score_memories_sorted [of cfg extracted] show ?thesis
    by (simp add: sorted_wrt_filter)
qed

text \<open>
  In \<open>extract_and_store\<close> the deduper receives the scored candidates, so the list that the
  first pass hands to the within-batch pass is sorted by salience, highest first.
\<close>

theorem within_batch_pass_gets_sorted_batch:
  assumes "deduplicate_against_stored cfg (map fst (score_memories cfg extracted)) stored =
             Inr (ds, residual)"
  shows "sorted_wrt (\<lambda>a b. salience_score b \<le> salience_score a) residual"
  using assms by (rule residual_sorted)

theorem within_batch_pass_gets_sorted_batch_witness:
  "deduplicate_against_stored default_Config
     (map fst (score_memories default_Config hike_twice)) [] =
     Inr ([], map fst (score_memories default_Config hike_twice)) \<and>
   sorted_wrt (\<lambda>a b. salience_score b \<le> salience_score a)
     (map fst (score_memories default_Config hike_twice))"
proof -
  have h: "deduplicate_against_stored default_Config
     (map fst (score_memories default_Config hike_twice)) [] =
     Inr ([], map fst (score_memories default_Config hike_twice))"
    by code_simp
  from within_batch_pass_gets_sorted_batch [OF h] h show ?thesis
    by blast
qed



text \<open>
  The order of the batch matters to the loop. On a direct call with three candidates of the
  same words whose scores are not in descending order, a call that \<open>extract_and_store\<close>
  never makes, the first candidate (id a, score 0.5) loses against the second (id b, score
  0.9), and the inner loop then still compares it with the third (id c, score 0.3), which
  is merged into a.
\<close>

lemma deduplicate_candidates_unsorted_batch:
  "deduplicate_candidates default_Config unsorted_hikes =
     [merge_candidate_into ''hiking on weekends'' (Some ''b''),
      merge_candidate_into ''hiking ON weekends'' (Some ''a'')] \<and>
   merged_in_batch default_Config unsorted_hikes = {0, 2}"
  by code_simp

end
